theory Spec2Isabelle
  imports Complex_Main
begin

section \<open>Data model\<close>

text \<open>
  The program (\<^verbatim>\<open>weather.py\<close>) is a pipeline over pandas tables. A table of the
  program has one value column and an index; the embedding keeps a table as the list of
  its rows (index entry, value) in row order together with the label of the value column.
  A value of the input is a finite floating point number, kept as the real number it is,
  or it is missing (NaN, \<open>None\<close>). A timestamp is a calendar date.
\<close>

datatype date = Date (year: int) (month: nat) (day: nat)

text \<open>The order of timestamps: by year, then month, then day.\<close>

definition date_le :: "date \<Rightarrow> date \<Rightarrow> bool" where
  "date_le a b \<longleftrightarrow>
     year a < year b \<or> (year a = year b \<and> (month a < month b \<or> (month a = month b \<and> day a \<le> day b)))"

definition valid_month :: "date \<Rightarrow> bool" where
  "valid_month d \<longleftrightarrow> 1 \<le> month d \<and> month d \<le> 12"

text \<open>A column label is a string (\<^verbatim>\<open>'...'\<close>) or an integer (a position, or a year).\<close>

datatype col_label = ColStr string | ColInt int

record ('i, 'v) frame =
  rows :: "('i \<times> 'v) list"
  columns :: col_label

text \<open>
  The exceptions the program can end with. None of them is raised by the program's own
  text: they come out of the library calls it makes.
\<close>

datatype error =
    FileNotFoundError  \<comment> \<open>\<^verbatim>\<open>pd.read_csv\<close> on a path that does not exist\<close>
  | EmptyDataError     \<comment> \<open>\<^verbatim>\<open>pd.read_csv\<close> on a file with no rows\<close>
  | AttributeError     \<comment> \<open>\<^verbatim>\<open>.year\<close> on an index that is not a DatetimeIndex\<close>
  | TypeError          \<comment> \<open>\<^verbatim>\<open>range\<close> on a bound that is not an int; \<^verbatim>\<open>plot.bar\<close> on a table
                           without columns; \<^verbatim>\<open>resample\<close> on an index that is not a DatetimeIndex\<close>
  | ValueError         \<comment> \<open>length mismatch when an index is assigned; \<^verbatim>\<open>resample\<close> on an
                           index without any timestamp\<close>

section \<open>Labels\<close>

text \<open>
  The labels of the source are Japanese text; a label is kept as the bytes of its UTF-8
  encoding. \<open>precipitation\<close> is the column label of \<^verbatim>\<open>read_csv_data\<close>,
  \<open>gatsu\<close> the month suffix of the twelve index labels of \<^verbatim>\<open>create_year_df\<close>.
\<close>

definition precipitation :: string where
  "precipitation =
     [CHR 0xE9, CHR 0x99, CHR 0x8D, CHR 0xE6, CHR 0xB0, CHR 0xB4, CHR 0xE9, CHR 0x87, CHR 0x8F]"

definition gatsu :: string where
  "gatsu = [CHR 0xE6, CHR 0x9C, CHR 0x88]"

definition month_labels :: "string list" where
  "month_labels =
     [''1'' @ gatsu, ''2'' @ gatsu, ''3'' @ gatsu, ''4'' @ gatsu, ''5'' @ gatsu, ''6'' @ gatsu,
      ''7'' @ gatsu, ''8'' @ gatsu, ''9'' @ gatsu, ''10'' @ gatsu, ''11'' @ gatsu, ''12'' @ gatsu]"

section \<open>Monthly resampling\<close>

text \<open>
  \<^verbatim>\<open>df.resample('M')\<close> groups the rows of a date-indexed table into calendar months.
  Its bins run from the month of the earliest timestamp to the month of the latest one,
  with every month in between, in ascending order whatever the row order; each bin is
  labelled with the last day of its month. A table without rows has no bins.
  Months are numbered \<open>12 * year + (month - 1)\<close>.
\<close>

definition month_index :: "date \<Rightarrow> int" where
  "month_index d = 12 * year d + int (month d) - 1"

definition is_leap :: "int \<Rightarrow> bool" where
  "is_leap y \<longleftrightarrow> (y mod 4 = 0 \<and> y mod 100 \<noteq> 0) \<or> y mod 400 = 0"

definition days_in_month :: "int \<Rightarrow> nat \<Rightarrow> nat" where
  "days_in_month y m =
     (if m = 2 then (if is_leap y then 29 else 28)
      else if m = 4 \<or> m = 6 \<or> m = 9 \<or> m = 11 then 30 else 31)"

definition month_end :: "int \<Rightarrow> date" where
  "month_end k = Date (k div 12) (nat (k mod 12) + 1) (days_in_month (k div 12) (nat (k mod 12) + 1))"

definition bucket :: "(date \<times> 'v) list \<Rightarrow> int \<Rightarrow> 'v list" where
  "bucket rs k = map snd (filter (\<lambda>r. month_index (fst r) = k) rs)"

fun bins :: "(date \<times> 'v) list \<Rightarrow> int list" where
  "bins [] = []"
| "bins (r # rs) =
     [fold min (map (month_index \<circ> fst) rs) (month_index (fst r)) ..
      fold max (map (month_index \<circ> fst) rs) (month_index (fst r))]"

definition resample_M :: "('v list \<Rightarrow> 'w) \<Rightarrow> (date, 'v) frame \<Rightarrow> (date, 'w) frame" where
  "resample_M agg df =
     \<lparr>rows = map (\<lambda>k. (month_end k, agg (bucket (rows df) k))) (bins (rows df)),
      columns = columns df\<rparr>"

text \<open>
  \<^verbatim>\<open>.sum()\<close> is 0 for a bin in which no value is left once NaN is skipped. For any other
  bin it is the sum the library computes of the values that are not NaN, in row order:
  a floating point sum, which is rounded and may be infinite, or, when the column holds
  integers only, a 64-bit integer sum, which wraps around. That sum is a parameter
  (\<open>fsum\<close>), and so is the type of its results. \<^verbatim>\<open>.count()\<close> counts the values of a
  bin that are not NaN.
\<close>

definition sum_agg :: "(real list \<Rightarrow> 's::zero) \<Rightarrow> real option list \<Rightarrow> 's" where
  "sum_agg fsum vs = (case List.map_filter (\<lambda>v. v) vs of [] \<Rightarrow> 0 | x # xs \<Rightarrow> fsum (x # xs))"

definition count_agg :: "real option list \<Rightarrow> nat" where
  "count_agg vs = length (filter (\<lambda>v. v \<noteq> None) vs)"

text \<open>
  \<^verbatim>\<open>df[df['...'] > rf]\<close>: the rows whose value is greater than \<open>rf\<close>; a comparison
  with NaN is false.
\<close>

definition is_above :: "real \<Rightarrow> ('i \<times> real option) \<Rightarrow> bool" where
  "is_above rf r = (case snd r of None \<Rightarrow> False | Some x \<Rightarrow> x > rf)"

definition above :: "real \<Rightarrow> ('i, real option) frame \<Rightarrow> ('i, real option) frame" where
  "above rf df = df\<lparr>rows := filter (is_above rf) (rows df)\<rparr>"

section \<open>The year pivot\<close>

text \<open>
  \<^verbatim>\<open>create_year_df(df, yyyy)\<close> selects the rows of year \<open>yyyy\<close>, then assigns the twelve
  month labels as the index of the selection and \<open>yyyy\<close> as its column label. Assigning an
  index of another length than the number of rows raises \<^verbatim>\<open>ValueError\<close>.
\<close>

definition set_index :: "'j list \<Rightarrow> ('i, 'v) frame \<Rightarrow> error + ('j, 'v) frame" where
  "set_index labels df =
     (if length labels \<noteq> length (rows df) then Inl ValueError
      else Inr \<lparr>rows = zip labels (map snd (rows df)), columns = columns df\<rparr>)"

definition create_year_df :: "(date, 'v) frame \<Rightarrow> int \<Rightarrow> error + (string, 'v) frame" where
  "create_year_df df yyyy =
     (case set_index month_labels (df\<lparr>rows := filter (\<lambda>r. year (fst r) = yyyy) (rows df)\<rparr>) of
        Inl e \<Rightarrow> Inl e
      | Inr df_name \<Rightarrow> Inr (df_name\<lparr>columns := ColInt yyyy\<rparr>))"

text \<open>
  The entry of a monthly table for a (year, month): the value of the first row whose
  timestamp lies in that month, \<open>None\<close> when the table has no such row.
\<close>

definition entry :: "(date, 'v) frame \<Rightarrow> int \<times> nat \<Rightarrow> 'v option" where
  "entry df ym = map_of (map (\<lambda>r. ((year (fst r), month (fst r)), snd r)) (rows df)) ym"

section \<open>The year table\<close>

text \<open>
  The table the charts are drawn from: an index and a list of labelled columns, a cell
  being a value or missing. \<^verbatim>\<open>pd.DataFrame(index=[], columns=[])\<close> is the table without
  index and columns. \<^verbatim>\<open>pd.concat([new_df, df_name], axis=1)\<close> joins on the index labels
  (the labels of the left table, then the new ones of the right table) and appends the
  column of the right table; a cell whose label a side does not have is missing. Index
  labels are taken to be unique on each side, which they are in this program.
\<close>

record 'v table =
  t_index :: "string list"
  t_columns :: "(col_label \<times> 'v option list) list"

definition empty_table :: "'v table" where
  "empty_table = \<lparr>t_index = [], t_columns = []\<rparr>"

definition concat_axis1 :: "'v table \<Rightarrow> (string, 'v) frame \<Rightarrow> 'v table" where
  "concat_axis1 new_df df_name =
     (let idx = t_index new_df @ filter (\<lambda>l. l \<notin> set (t_index new_df)) (map fst (rows df_name))
      in \<lparr>t_index = idx,
          t_columns =
            map (\<lambda>c. (fst c, map (\<lambda>l. case map_of (zip (t_index new_df) (snd c)) l of
                                          None \<Rightarrow> None | Some v \<Rightarrow> v) idx))
                (t_columns new_df)
            @ [(columns df_name, map (map_of (rows df_name)) idx)]\<rparr>)"

text \<open>
  \<^verbatim>\<open>range(start_year, end_year, 1)\<close>. The bounds come from \<^verbatim>\<open>df.index.year.min()\<close> and
  \<^verbatim>\<open>.max()\<close>. For an index of timestamps they are integers. They are floats, on which
  \<^verbatim>\<open>range\<close> raises \<^verbatim>\<open>TypeError\<close>, for a table without rows (NaN) and for an index in
  which a timestamp is missing (the years of such an index are floats); a bound that is a
  float is \<open>None\<close>.
\<close>

fun year_min :: "(date \<times> 'v) list \<Rightarrow> int option" where
  "year_min [] = None"
| "year_min (r # rs) = Some (fold min (map (year \<circ> fst) rs) (year (fst r)))"

fun year_max :: "(date \<times> 'v) list \<Rightarrow> int option" where
  "year_max [] = None"
| "year_max (r # rs) = Some (fold max (map (year \<circ> fst) rs) (year (fst r)))"

fun py_range :: "int option \<Rightarrow> int option \<Rightarrow> error + int list" where
  "py_range (Some a) (Some b) = Inr [a..b - 1]"
| "py_range _ _ = Inl TypeError"

text \<open>
  The loop that all four aggregate charts share, word for word:
  \<^verbatim>\<open>for y in range(start_year, end_year, 1):
      df_name = create_year_df(agg, y)
      new_df = pd.concat([new_df, df_name], axis=1)\<close>
\<close>

fun year_loop :: "(date, 'v) frame \<Rightarrow> int list \<Rightarrow> 'v table \<Rightarrow> error + 'v table" where
  "year_loop agg [] new_df = Inr new_df"
| "year_loop agg (y # ys) new_df =
     (case create_year_df agg y of
        Inl e \<Rightarrow> Inl e
      | Inr df_name \<Rightarrow> year_loop agg ys (concat_axis1 new_df df_name))"

definition year_table :: "(date, 'v) frame \<Rightarrow> int option \<Rightarrow> int option \<Rightarrow> error + 'v table" where
  "year_table agg start_year end_year =
     (case py_range start_year end_year of
        Inl e \<Rightarrow> Inl e
      | Inr ys \<Rightarrow> year_loop agg ys empty_table)"

section \<open>Input files and loaded tables\<close>

text \<open>
  An input file is the list of its rows: the text of the first field and the number of
  the second one (\<open>None\<close> when the field is empty). The file system maps a path to a
  file. The date parser of the library is a parameter. \<^verbatim>\<open>pd.read_csv(fn, parse_dates=True,
  index_col=0, header=None, usecols=[0, 1])\<close> raises on a missing path and on a file
  without rows, keeps the rows in the order of the file and labels the value column with
  its position 1. The first field becomes a DatetimeIndex when every row's field parses
  as a date, and also when the only fields that do not parse are empty ones: an empty
  field is then a missing timestamp (NaT, \<open>None\<close>). When a field that is not empty does
  not parse, the index stays the text of the fields; nothing is raised.
\<close>

type_synonym csv = "(string \<times> real option) list"

type_synonym files = "string \<Rightarrow> csv option"

datatype loaded =
    DatetimeFrame "(date, real option) frame"
  | NaTFrame "(date option, real option) frame"
  | ObjectFrame "(string, real option) frame"

definition read_csv :: "(string \<Rightarrow> date option) \<Rightarrow> files \<Rightarrow> string \<Rightarrow> error + loaded" where
  "read_csv to_datetime fs fn =
     (case fs fn of
        None \<Rightarrow> Inl FileNotFoundError
      | Some [] \<Rightarrow> Inl EmptyDataError
      | Some (r # rs) \<Rightarrow>
          (case those (map (to_datetime \<circ> fst) (r # rs)) of
             Some ds \<Rightarrow> Inr (DatetimeFrame \<lparr>rows = zip ds (map snd (r # rs)), columns = ColInt 1\<rparr>)
           | None \<Rightarrow>
               (if list_all (\<lambda>x. fst x = [] \<or> to_datetime (fst x) \<noteq> None) (r # rs)
                then Inr (NaTFrame \<lparr>rows = map (\<lambda>x. (to_datetime (fst x), snd x)) (r # rs),
                                    columns = ColInt 1\<rparr>)
                else Inr (ObjectFrame \<lparr>rows = r # rs, columns = ColInt 1\<rparr>))))"

fun set_columns :: "col_label \<Rightarrow> loaded \<Rightarrow> loaded" where
  "set_columns c (DatetimeFrame df) = DatetimeFrame (df\<lparr>columns := c\<rparr>)"
| "set_columns c (NaTFrame df) = NaTFrame (df\<lparr>columns := c\<rparr>)"
| "set_columns c (ObjectFrame df) = ObjectFrame (df\<lparr>columns := c\<rparr>)"

text \<open>
  What the program asks of a loaded table, whatever its index. \<^verbatim>\<open>df.index.year\<close> raises
  \<^verbatim>\<open>AttributeError\<close> when the index is not a DatetimeIndex. \<^verbatim>\<open>df.resample('M')\<close>
  raises \<^verbatim>\<open>TypeError\<close> when the index is not a DatetimeIndex; it leaves the rows without
  timestamp out of every bin, and raises \<^verbatim>\<open>ValueError\<close> when there are rows and none of
  them has a timestamp. \<^verbatim>\<open>df[df['...'] > rf]\<close> selects rows by their values only.
\<close>

definition timed :: "(date option, 'v) frame \<Rightarrow> (date, 'v) frame" where
  "timed df =
     \<lparr>rows = List.map_filter (\<lambda>r. case fst r of None \<Rightarrow> None | Some d \<Rightarrow> Some (d, snd r)) (rows df),
      columns = columns df\<rparr>"

fun index_years :: "loaded \<Rightarrow> error + int option \<times> int option" where
  "index_years (DatetimeFrame df) = Inr (year_min (rows df), year_max (rows df))"
| "index_years (NaTFrame df) =
     (if list_all (\<lambda>r. fst r \<noteq> None) (rows df)
      then Inr (year_min (rows (timed df)), year_max (rows (timed df)))
      else Inr (None, None))"
| "index_years (ObjectFrame df) = Inl AttributeError"

fun resample :: "(real option list \<Rightarrow> 'w) \<Rightarrow> loaded \<Rightarrow> error + (date, 'w) frame" where
  "resample agg (DatetimeFrame df) = Inr (resample_M agg df)"
| "resample agg (NaTFrame df) =
     (if rows df \<noteq> [] \<and> rows (timed df) = [] then Inl ValueError
      else Inr (resample_M agg (timed df)))"
| "resample agg (ObjectFrame df) = Inl TypeError"

fun select_above :: "real \<Rightarrow> loaded \<Rightarrow> loaded" where
  "select_above rf (DatetimeFrame df) = DatetimeFrame (above rf df)"
| "select_above rf (NaTFrame df) = NaTFrame (above rf df)"
| "select_above rf (ObjectFrame df) = ObjectFrame (above rf df)"

section \<open>Process state and charts\<close>

text \<open>
  The process-wide state the program touches: two display options of pandas, the font
  family of matplotlib, and what has been drawn so far. A chart is kept as the data it is
  drawn from; titles, axis labels and sizes are left out. \<open>Figure\<close> is a matplotlib
  figure that \<^verbatim>\<open>plot.bar\<close> creates without displaying it, \<open>PltShow\<close> is
  \<^verbatim>\<open>plt.show()\<close>, which displays the figures created so far, and \<open>PxShow\<close> is
  \<^verbatim>\<open>fig.show()\<close> of plotly, which displays its figure at once.
\<close>

datatype 's chart =
    Line loaded
  | AmountBars "'s table"
  | DaysBars "nat table"

datatype 's event = Figure "'s chart" | PltShow | PxShow "'s chart"

record 's world =
  display_max_rows :: nat
  display_precision :: nat
  font_family :: string
  events :: "'s event list"

section \<open>The program\<close>

text \<open>
  Every function takes the process state and returns its result, or the exception it
  ends with, together with the state it leaves.
\<close>

definition read_csv_data ::
  "(string \<Rightarrow> date option) \<Rightarrow> files \<Rightarrow> string \<Rightarrow> 's world \<Rightarrow> (error + loaded) \<times> 's world" where
  "read_csv_data to_datetime fs fn w =
     (case read_csv to_datetime fs fn of
        Inl e \<Rightarrow> (Inl e, w)
      | Inr df \<Rightarrow>
          (Inr (set_columns (ColStr precipitation) df),
           w\<lparr>display_max_rows := 500, display_precision := 1\<rparr>))"

text \<open>
  \<^verbatim>\<open>new_df.plot.bar(...)\<close> creates a figure of the columns of the table; on a table
  without columns, which is what the loop leaves when the range of years is empty, it
  raises \<^verbatim>\<open>TypeError\<close> (no numeric data to plot) and creates nothing.
\<close>

definition plot_bar :: "'s chart \<Rightarrow> bool \<Rightarrow> 's world \<Rightarrow> (error + unit) \<times> 's world" where
  "plot_bar c no_columns w =
     (if no_columns then (Inl TypeError, w)
      else (Inr (), w\<lparr>events := events w @ [Figure c]\<rparr>))"

definition plot_rain_fall_plt ::
  "(real list \<Rightarrow> 's::zero) \<Rightarrow> loaded \<Rightarrow> int option \<Rightarrow> int option \<Rightarrow> 's world
   \<Rightarrow> (error + unit) \<times> 's world" where
  "plot_rain_fall_plt fsum df start_year end_year w =
     (case resample (sum_agg fsum) df of
        Inl e \<Rightarrow> (Inl e, w)
      | Inr amount_df \<Rightarrow>
          (case year_table amount_df start_year end_year of
             Inl e \<Rightarrow> (Inl e, w)
           | Inr new_df \<Rightarrow> plot_bar (AmountBars new_df) (t_columns new_df = []) w))"

definition plot_rainy_days_plt ::
  "loaded \<Rightarrow> int option \<Rightarrow> int option \<Rightarrow> real \<Rightarrow> 's world \<Rightarrow> (error + unit) \<times> 's world" where
  "plot_rainy_days_plt df start_year end_year rf w =
     (case resample count_agg (select_above rf df) of
        Inl e \<Rightarrow> (Inl e, w)
      | Inr count_df \<Rightarrow>
          (case year_table count_df start_year end_year of
             Inl e \<Rightarrow> (Inl e, w)
           | Inr new_df \<Rightarrow>
               (case plot_bar (DaysBars new_df) (t_columns new_df = []) w of
                  (Inl e, w') \<Rightarrow> (Inl e, w')
                | (Inr u, w') \<Rightarrow> (Inr (), w'\<lparr>events := events w' @ [PltShow]\<rparr>))))"

text \<open>
  The plotly charts. \<^verbatim>\<open>px.line\<close> and \<^verbatim>\<open>px.bar\<close> draw whatever table they are given,
  a table without columns as a chart without bars.
\<close>

definition plot_original_data_px :: "loaded \<Rightarrow> 's world \<Rightarrow> (error + unit) \<times> 's world" where
  "plot_original_data_px df w = (Inr (), w\<lparr>events := events w @ [PxShow (Line df)]\<rparr>)"

definition plot_rain_amount_px ::
  "(real list \<Rightarrow> 's::zero) \<Rightarrow> loaded \<Rightarrow> int option \<Rightarrow> int option \<Rightarrow> 's world
   \<Rightarrow> (error + unit) \<times> 's world" where
  "plot_rain_amount_px fsum df start_year end_year w =
     (case resample (sum_agg fsum) df of
        Inl e \<Rightarrow> (Inl e, w)
      | Inr df_monthly_total \<Rightarrow>
          (case year_table df_monthly_total start_year end_year of
             Inl e \<Rightarrow> (Inl e, w)
           | Inr new_df \<Rightarrow> (Inr (), w\<lparr>events := events w @ [PxShow (AmountBars new_df)]\<rparr>)))"

definition plot_rainy_days_px ::
  "loaded \<Rightarrow> int option \<Rightarrow> int option \<Rightarrow> 's world \<Rightarrow> (error + unit) \<times> 's world" where
  "plot_rainy_days_px df start_year end_year w =
     (case resample count_agg (select_above 0 df) of
        Inl e \<Rightarrow> (Inl e, w)
      | Inr df_rainy_days \<Rightarrow>
          (case year_table df_rainy_days start_year end_year of
             Inl e \<Rightarrow> (Inl e, w)
           | Inr new_df \<Rightarrow> (Inr (), w\<lparr>events := events w @ [PxShow (DaysBars new_df)]\<rparr>)))"

text \<open>
  \<^verbatim>\<open>main(graph_type)\<close>: the two display options, the load from the fixed path, the
  first and the last year of the index, then the charts of the mode.
\<close>

definition hiyoshi :: string where
  "hiyoshi = ''./data/hiyoshi.csv''"

definition plt_charts ::
  "(real list \<Rightarrow> 's::zero) \<Rightarrow> loaded \<Rightarrow> int option \<Rightarrow> int option \<Rightarrow> 's world
   \<Rightarrow> (error + unit) \<times> 's world" where
  "plt_charts fsum df start_year end_year w =
     (case plot_rain_fall_plt fsum df start_year end_year (w\<lparr>font_family := ''Ricty Diminished''\<rparr>) of
        (Inl e, w') \<Rightarrow> (Inl e, w')
      | (Inr u, w') \<Rightarrow> plot_rainy_days_plt df start_year end_year 1 w')"

definition px_charts ::
  "(real list \<Rightarrow> 's::zero) \<Rightarrow> loaded \<Rightarrow> int option \<Rightarrow> int option \<Rightarrow> 's world
   \<Rightarrow> (error + unit) \<times> 's world" where
  "px_charts fsum df start_year end_year w =
     (case plot_original_data_px df w of
        (Inl e, w') \<Rightarrow> (Inl e, w')
      | (Inr u, w') \<Rightarrow>
          (case plot_rain_amount_px fsum df start_year end_year w' of
             (Inl e, w'') \<Rightarrow> (Inl e, w'')
           | (Inr u, w'') \<Rightarrow> plot_rainy_days_px df start_year end_year w''))"

definition main ::
  "(string \<Rightarrow> date option) \<Rightarrow> (real list \<Rightarrow> 's::zero) \<Rightarrow> files \<Rightarrow> string \<Rightarrow> 's world
   \<Rightarrow> (error + unit) \<times> 's world" where
  "main to_datetime fsum fs graph_type w =
     (case read_csv_data to_datetime fs hiyoshi (w\<lparr>display_max_rows := 500, display_precision := 1\<rparr>) of
        (Inl e, w') \<Rightarrow> (Inl e, w')
      | (Inr df, w') \<Rightarrow>
          (case index_years df of
             Inl e \<Rightarrow> (Inl e, w')
           | Inr (start_year, end_year) \<Rightarrow>
               (if graph_type = ''plt''
                then plt_charts fsum df start_year end_year w'
                else px_charts fsum df start_year end_year w')))"

section \<open>The aggregation on a store\<close>

text \<open>
  The tables of the program are objects that a statement can change in place:
  \<^verbatim>\<open>create_year_df\<close> assigns to the index and to the columns of a table
  (\<^verbatim>\<open>df_name.index = ...\<close>, \<^verbatim>\<open>df_name.columns = ...\<close>). To see which objects the
  aggregation changes, its statements are given a second time over a store of table
  objects. A table is referred to by its position in the store. The objects are the
  tables of observations (the loaded table and selections of its rows), the date-indexed
  and the label-indexed tables of aggregated values, and the year tables.

  The calls of the library that build a table (\<^verbatim>\<open>df[mask]\<close>, \<^verbatim>\<open>resample(...).sum()\<close>,
  \<^verbatim>\<open>.count()\<close>, \<^verbatim>\<open>pd.DataFrame(...)\<close>, \<^verbatim>\<open>pd.concat\<close>) put a new object into the store
  and leave their arguments as they are; the two assignments update the object they are
  applied to. A statement ends with \<open>Returns\<close>, with the exception it \<open>Raises\<close>, or it
  is \<open>Stuck\<close>: it is applied to a reference that points nowhere, or to an object of a
  kind on which the program never runs it and for whose result the tables of the
  embedding have no type.
\<close>

datatype ('a, 'v) obj =
    Observed "(date, 'a) frame"
  | DateIndexed "(date, 'v) frame"
  | LabelIndexed "(string, 'v) frame"
  | Wide "'v table"

type_synonym ('a, 'v) store = "('a, 'v) obj list"

datatype 'r outcome = Returns 'r | Raises error | Stuck

definition deref :: "('a, 'v) store \<Rightarrow> nat \<Rightarrow> ('a, 'v) obj option" where
  "deref h a = (if a < length h then Some (h ! a) else None)"

text \<open>\<^verbatim>\<open>df[df['...'] > rf]\<close>, on a table of observations.\<close>

definition mask_st ::
  "(date \<times> 'a \<Rightarrow> bool) \<Rightarrow> ('a, 'v) store \<Rightarrow> nat \<Rightarrow> nat outcome \<times> ('a, 'v) store" where
  "mask_st p h df =
     (case deref h df of
        Some (Observed d) \<Rightarrow> (Returns (length h), h @ [Observed (d\<lparr>rows := filter p (rows d)\<rparr>)])
      | _ \<Rightarrow> (Stuck, h))"

text \<open>\<^verbatim>\<open>df.resample('M').sum()\<close> and \<^verbatim>\<open>.count()\<close>; an index of labels is no DatetimeIndex.\<close>

definition resample_st ::
  "('a list \<Rightarrow> 'v) \<Rightarrow> ('a, 'v) store \<Rightarrow> nat \<Rightarrow> nat outcome \<times> ('a, 'v) store" where
  "resample_st agg h df =
     (case deref h df of
        Some (Observed d) \<Rightarrow> (Returns (length h), h @ [DateIndexed (resample_M agg d)])
      | Some (LabelIndexed d) \<Rightarrow> (Raises TypeError, h)
      | Some (Wide t) \<Rightarrow> (Raises TypeError, h)
      | _ \<Rightarrow> (Stuck, h))"

text \<open>The three statements of \<^verbatim>\<open>create_year_df\<close>, and the function.\<close>

definition select_year :: "('a, 'v) store \<Rightarrow> nat \<Rightarrow> int \<Rightarrow> nat outcome \<times> ('a, 'v) store" where
  "select_year h df yyyy =
     (case deref h df of
        Some (Observed d) \<Rightarrow>
          (Returns (length h), h @ [Observed (d\<lparr>rows := filter (\<lambda>r. year (fst r) = yyyy) (rows d)\<rparr>)])
      | Some (DateIndexed d) \<Rightarrow>
          (Returns (length h), h @ [DateIndexed (d\<lparr>rows := filter (\<lambda>r. year (fst r) = yyyy) (rows d)\<rparr>)])
      | Some (LabelIndexed d) \<Rightarrow> (Raises AttributeError, h)
      | Some (Wide t) \<Rightarrow> (Raises AttributeError, h)
      | None \<Rightarrow> (Stuck, h))"

definition assign_index ::
  "('a, 'v) store \<Rightarrow> nat \<Rightarrow> string list \<Rightarrow> unit outcome \<times> ('a, 'v) store" where
  "assign_index h a labels =
     (case deref h a of
        Some (DateIndexed d) \<Rightarrow>
          (case set_index labels d of
             Inl e \<Rightarrow> (Raises e, h)
           | Inr d' \<Rightarrow> (Returns (), h[a := LabelIndexed d']))
      | Some (LabelIndexed d) \<Rightarrow>
          (case set_index labels d of
             Inl e \<Rightarrow> (Raises e, h)
           | Inr d' \<Rightarrow> (Returns (), h[a := LabelIndexed d']))
      | _ \<Rightarrow> (Stuck, h))"

definition assign_columns ::
  "('a, 'v) store \<Rightarrow> nat \<Rightarrow> col_label \<Rightarrow> unit outcome \<times> ('a, 'v) store" where
  "assign_columns h a c =
     (case deref h a of
        Some (Observed d) \<Rightarrow> (Returns (), h[a := Observed (d\<lparr>columns := c\<rparr>)])
      | Some (DateIndexed d) \<Rightarrow> (Returns (), h[a := DateIndexed (d\<lparr>columns := c\<rparr>)])
      | Some (LabelIndexed d) \<Rightarrow> (Returns (), h[a := LabelIndexed (d\<lparr>columns := c\<rparr>)])
      | _ \<Rightarrow> (Stuck, h))"

definition create_year_df_st :: "('a, 'v) store \<Rightarrow> nat \<Rightarrow> int \<Rightarrow> nat outcome \<times> ('a, 'v) store" where
  "create_year_df_st h df yyyy =
     (case select_year h df yyyy of
        (Returns df_name, h1) \<Rightarrow>
          (case assign_index h1 df_name month_labels of
             (Returns u, h2) \<Rightarrow>
               (case assign_columns h2 df_name (ColInt yyyy) of
                  (Returns u, h3) \<Rightarrow> (Returns df_name, h3)
                | (Raises e, h3) \<Rightarrow> (Raises e, h3)
                | (Stuck, h3) \<Rightarrow> (Stuck, h3))
           | (Raises e, h2) \<Rightarrow> (Raises e, h2)
           | (Stuck, h2) \<Rightarrow> (Stuck, h2))
      | (Raises e, h1) \<Rightarrow> (Raises e, h1)
      | (Stuck, h1) \<Rightarrow> (Stuck, h1))"

text \<open>\<^verbatim>\<open>pd.DataFrame(index=[], columns=[])\<close> and \<^verbatim>\<open>pd.concat([new_df, df_name], axis=1)\<close>.\<close>

definition new_table_st :: "('a, 'v) store \<Rightarrow> nat \<times> ('a, 'v) store" where
  "new_table_st h = (length h, h @ [Wide empty_table])"

definition concat_st :: "('a, 'v) store \<Rightarrow> nat \<Rightarrow> nat \<Rightarrow> nat outcome \<times> ('a, 'v) store" where
  "concat_st h new_df df_name =
     (case deref h new_df of
        Some (Wide t) \<Rightarrow>
          (case deref h df_name of
             Some (LabelIndexed d) \<Rightarrow> (Returns (length h), h @ [Wide (concat_axis1 t d)])
           | _ \<Rightarrow> (Stuck, h))
      | _ \<Rightarrow> (Stuck, h))"

text \<open>
  The loop, and the statements that the four aggregate charts run before they draw: the
  aggregate of the months, the empty table, the range of years, the loop.
\<close>

fun year_loop_st ::
  "('a, 'v) store \<Rightarrow> nat \<Rightarrow> int list \<Rightarrow> nat \<Rightarrow> nat outcome \<times> ('a, 'v) store" where
  "year_loop_st h agg [] new_df = (Returns new_df, h)"
| "year_loop_st h agg (y # ys) new_df =
     (case create_year_df_st h agg y of
        (Returns df_name, h1) \<Rightarrow>
          (case concat_st h1 new_df df_name of
             (Returns new_df', h2) \<Rightarrow> year_loop_st h2 agg ys new_df'
           | (Raises e, h2) \<Rightarrow> (Raises e, h2)
           | (Stuck, h2) \<Rightarrow> (Stuck, h2))
      | (Raises e, h1) \<Rightarrow> (Raises e, h1)
      | (Stuck, h1) \<Rightarrow> (Stuck, h1))"

definition year_table_st ::
  "('a, 'v) store \<Rightarrow> nat \<Rightarrow> int option \<Rightarrow> int option \<Rightarrow> nat outcome \<times> ('a, 'v) store" where
  "year_table_st h agg start_year end_year =
     (case new_table_st h of
        (new_df, h1) \<Rightarrow>
          (case py_range start_year end_year of
             Inl e \<Rightarrow> (Raises e, h1)
           | Inr ys \<Rightarrow> year_loop_st h1 agg ys new_df))"

definition rain_fall_table_st ::
  "(real list \<Rightarrow> 's::zero) \<Rightarrow> (real option, 's) store \<Rightarrow> nat \<Rightarrow> int option \<Rightarrow> int option
   \<Rightarrow> nat outcome \<times> (real option, 's) store" where
  "rain_fall_table_st fsum h df start_year end_year =
     (case resample_st (sum_agg fsum) h df of
        (Returns amount_df, h1) \<Rightarrow> year_table_st h1 amount_df start_year end_year
      | (Raises e, h1) \<Rightarrow> (Raises e, h1)
      | (Stuck, h1) \<Rightarrow> (Stuck, h1))"

definition rainy_days_table_st ::
  "real \<Rightarrow> (real option, nat) store \<Rightarrow> nat \<Rightarrow> int option \<Rightarrow> int option
   \<Rightarrow> nat outcome \<times> (real option, nat) store" where
  "rainy_days_table_st rf h df start_year end_year =
     (case mask_st (is_above rf) h df of
        (Returns selected, h1) \<Rightarrow>
          (case resample_st count_agg h1 selected of
             (Returns count_df, h2) \<Rightarrow> year_table_st h2 count_df start_year end_year
           | (Raises e, h2) \<Rightarrow> (Raises e, h2)
           | (Stuck, h2) \<Rightarrow> (Stuck, h2))
      | (Raises e, h1) \<Rightarrow> (Raises e, h1)
      | (Stuck, h1) \<Rightarrow> (Stuck, h1))"

section \<open>Notions used in the statements\<close>

text \<open>
  The first and the last month of a list of rows, as month numbers, and whether a monthly
  table has an entry for each of the twelve months of a year.
\<close>

definition lo_month :: "(date \<times> 'v) list \<Rightarrow> int" where
  "lo_month rs = Min (set (map (month_index \<circ> fst) rs))"

definition hi_month :: "(date \<times> 'v) list \<Rightarrow> int" where
  "hi_month rs = Max (set (map (month_index \<circ> fst) rs))"

definition full_year :: "(date, 'v) frame \<Rightarrow> int \<Rightarrow> bool" where
  "full_year agg y = list_all (\<lambda>m. entry agg (y, m) \<noteq> None) [1..<13]"

text \<open>Inputs used in the examples below.\<close>

definition series :: "(date \<times> real option) list \<Rightarrow> (date, real option) frame" where
  "series rs = \<lparr>rows = rs, columns = ColStr precipitation\<rparr>"

text \<open>
  In the examples the values are small integers and halves, whose floating point sums are
  exact: there the sum of the library is the sum of the reals.
\<close>

definition exact_sum :: "real list \<Rightarrow> real" where
  "exact_sum xs = sum_list xs"

definition jan_dec_2021 :: "(date, real option) frame" where
  "jan_dec_2021 = series [(Date 2021 1 5, Some 1), (Date 2021 12 20, Some 2)]"

definition jan_mar_2021 :: "(date, real option) frame" where
  "jan_mar_2021 = series [(Date 2021 1 10, Some 1), (Date 2021 2 3, Some 4), (Date 2021 3 5, Some 2)]"

text \<open>
  Whether a month lies between the first and the last month of a list of rows, and the
  number of rows of a month whose value is greater than a threshold.
\<close>

definition in_span :: "(date \<times> 'v) list \<Rightarrow> int \<Rightarrow> nat \<Rightarrow> bool" where
  "in_span rs y m \<longleftrightarrow>
     rs \<noteq> [] \<and> lo_month rs \<le> 12 * y + int m - 1 \<and> 12 * y + int m - 1 \<le> hi_month rs"

definition days_above :: "real \<Rightarrow> (date, real option) frame \<Rightarrow> int \<Rightarrow> nat \<Rightarrow> nat" where
  "days_above t df y m =
     length (filter (\<lambda>r. year (fst r) = y \<and> month (fst r) = m \<and> is_above t r) (rows df))"

definition spec_example :: "(date, real option) frame" where
  "spec_example = series [(Date 2022 1 1, Some 0), (Date 2022 1 15, Some 5), (Date 2022 2 10, Some 0)]"

definition jan_mar_2022 :: "(date, real option) frame" where
  "jan_mar_2022 = series [(Date 2022 1 15, Some 5), (Date 2022 2 3, Some 0), (Date 2022 3 10, Some 2)]"

definition jan_mar_gap :: "(date, real option) frame" where
  "jan_mar_gap = series [(Date 2022 1 15, Some 5), (Date 2022 3 10, Some 2)]"

text \<open>
  The column of a year in a year table that is read off a monthly table, the first and
  the last year of a list of rows, and the shape of a year table the loop maintains: it is
  either the table without index and columns or a table over the twelve month labels.
\<close>

definition year_column :: "(date, 'v) frame \<Rightarrow> int \<Rightarrow> col_label \<times> 'v option list" where
  "year_column agg y = (ColInt y, map (\<lambda>m. entry agg (y, m)) [1..<13])"

definition first_year :: "(date \<times> 'v) list \<Rightarrow> int" where
  "first_year rs = Min (set (map (year \<circ> fst) rs))"

definition last_year :: "(date \<times> 'v) list \<Rightarrow> int" where
  "last_year rs = Max (set (map (year \<circ> fst) rs))"

definition aligned :: "'v table \<Rightarrow> bool" where
  "aligned t \<longleftrightarrow>
     (t_index t = [] \<and> t_columns t = [])
     \<or> (t_index t = month_labels \<and> list_all (\<lambda>c. length (snd c) = 12) (t_columns t))"

definition two_years :: "(date, real option) frame" where
  "two_years = series [(Date 2020 1 10, Some 1), (Date 2021 12 5, Some 3)]"

definition table_2020 :: "real table" where
  "table_2020 = \<lparr>t_index = month_labels,
      t_columns = [(ColInt 2020, [Some 1, Some 0, Some 0, Some 0, Some 0, Some 0,
                                  Some 0, Some 0, Some 0, Some 0, Some 0, Some 0])]\<rparr>"

text \<open>A date parser and input files for the examples.\<close>

definition example_dates :: "string \<Rightarrow> date option" where
  "example_dates = map_of
     [(''2020-01-10'', Date 2020 1 10), (''2020-03-01'', Date 2020 3 1),
      (''2020-06-01'', Date 2020 6 1),
      (''2020-12-10'', Date 2020 12 10), (''2021-06-01'', Date 2021 6 1),
      (''2021-12-31'', Date 2021 12 31),
      (''2022-01-01'', Date 2022 1 1), (''2022-01-15'', Date 2022 1 15),
      (''2022-02-10'', Date 2022 2 10)]"

definition unsorted_file :: csv where
  "unsorted_file = [(''2022-02-10'', Some 0), (''2022-01-01'', Some 0), (''2022-01-15'', Some 5)]"

definition one_file :: "string \<Rightarrow> csv \<Rightarrow> files" where
  "one_file fn rs = (\<lambda>p. if p = fn then Some rs else None)"

definition pandas_defaults :: "'s world" where
  "pandas_defaults =
     \<lparr>display_max_rows = 60, display_precision = 6, font_family = ''sans-serif'', events = []\<rparr>"


fun days_of :: "'s event \<Rightarrow> nat table option" where
  "days_of (Figure (DaysBars t)) = Some t"
| "days_of (PxShow (DaysBars t)) = Some t"
| "days_of ev = None"

definition days_displayed :: "'s world \<Rightarrow> nat table list" where
  "days_displayed w = List.map_filter days_of (events w)"

definition effect :: "bool \<Rightarrow> 's event list \<Rightarrow> 's world \<Rightarrow> 's world" where
  "effect b evs w =
     w\<lparr>display_max_rows := 500, display_precision := 1,
       font_family := (if b then ''Ricty Diminished'' else font_family w),
       events := events w @ evs\<rparr>"

definition run_result ::
  "(string \<Rightarrow> date option) \<Rightarrow> (real list \<Rightarrow> 's::zero) \<Rightarrow> files \<Rightarrow> string \<Rightarrow> error + unit" where
  "run_result td fsum fs g = fst (main td fsum fs g pandas_defaults)"

definition run_events ::
  "(string \<Rightarrow> date option) \<Rightarrow> (real list \<Rightarrow> 's::zero) \<Rightarrow> files \<Rightarrow> string \<Rightarrow> 's event list" where
  "run_events td fsum fs g = events (snd (main td fsum fs g pandas_defaults))"

definition run_font ::
  "(string \<Rightarrow> date option) \<Rightarrow> (real list \<Rightarrow> 's::zero) \<Rightarrow> files \<Rightarrow> string \<Rightarrow> bool" where
  "run_font td fsum fs g \<longleftrightarrow>
     font_family (snd (main td fsum fs g pandas_defaults)) = ''Ricty Diminished''"

definition other_csv :: string where
  "other_csv = ''./data/other.csv''"

definition march_file :: csv where
  "march_file = [(''2020-03-01'', Some 1), (''2021-12-31'', Some 2)]"


definition two_files :: files where
  "two_files = (\<lambda>p. if p = hiyoshi then Some unsorted_file
                     else if p = other_csv then Some march_file else None)"

definition march_2020 :: "(date, real option) frame" where
  "march_2020 = series [(Date 2020 3 1, Some 1), (Date 2021 12 31, Some 2)]"

definition last_year_drizzle :: csv where
  "last_year_drizzle = [(''2020-01-10'', Some 5), (''2020-12-10'', Some 5), (''2021-06-01'', Some (1/2))]"

definition amounts_2020 :: "real table" where
  "amounts_2020 = \<lparr>t_index = month_labels,
      t_columns = [(ColInt 2020, [Some 5, Some 0, Some 0, Some 0, Some 0, Some 0,
                                  Some 0, Some 0, Some 0, Some 0, Some 0, Some 5])]\<rparr>"

definition days_2020 :: "nat table" where
  "days_2020 = \<lparr>t_index = month_labels,
      t_columns = [(ColInt 2020, [Some 1, Some 0, Some 0, Some 0, Some 0, Some 0,
                                  Some 0, Some 0, Some 0, Some 0, Some 0, Some 1])]\<rparr>"

definition drizzle_2020 :: "(date, real option) frame" where
  "drizzle_2020 = series [(Date 2020 1 10, Some 5), (Date 2020 6 1, Some (1/2)),
                          (Date 2020 12 10, Some 5), (Date 2021 6 1, Some 3)]"

definition drizzle_file :: csv where
  "drizzle_file = [(''2020-01-10'', Some 5), (''2020-06-01'', Some (1/2)),
                   (''2020-12-10'', Some 5), (''2021-06-01'', Some 3)]"

definition amounts_2020_drizzle :: "real table" where
  "amounts_2020_drizzle = \<lparr>t_index = month_labels,
      t_columns = [(ColInt 2020, [Some 5, Some 0, Some 0, Some 0, Some 0, Some (1/2),
                                  Some 0, Some 0, Some 0, Some 0, Some 0, Some 5])]\<rparr>"

definition days_2020_drizzle :: "nat table" where
  "days_2020_drizzle = \<lparr>t_index = month_labels,
      t_columns = [(ColInt 2020, [Some 1, Some 0, Some 0, Some 0, Some 0, Some 1,
                                  Some 0, Some 0, Some 0, Some 0, Some 0, Some 1])]\<rparr>"

definition drizzle_2021 :: "(date, real option) frame" where
  "drizzle_2021 = series [(Date 2020 1 10, Some 5), (Date 2020 12 10, Some 5),
                          (Date 2021 6 1, Some (1/2))]"


definition days_table_2020 :: "nat table" where
  "days_table_2020 = \<lparr>t_index = month_labels,
      t_columns = [(ColInt 2020, [Some 1, Some 0, Some 0, Some 0, Some 0, Some 0,
                                  Some 0, Some 0, Some 0, Some 0, Some 0, Some 0])]\<rparr>"

definition observed_store :: "(real option, 'v) store" where
  "observed_store = [Observed two_years]"

section \<open>Month arithmetic\<close>

lemma div_mod_12:
  fixes y j :: int
  assumes "0 \<le> j" "j < 12"
  shows "(12 * y + j) div 12 = y" "(12 * y + j) mod 12 = j"
  using assms by simp_all

lemma month_key_inj:
  fixes k k0 :: int
  shows "(k div 12 = k0 div 12 \<and> nat (k mod 12) = nat (k0 mod 12)) \<longleftrightarrow> k = k0"
proof -
  have "nat (k mod 12) = nat (k0 mod 12) \<longleftrightarrow> k mod 12 = k0 mod 12"
    by (simp add: nat_eq_iff)
  moreover have "k div 12 = k0 div 12 \<Longrightarrow> k mod 12 = k0 mod 12 \<Longrightarrow> k = k0"
    by (metis div_mult_mod_eq)
  ultimately show ?thesis by blast
qed

lemma upto_filter_div12:
  "filter (\<lambda>k. k div 12 = y) [lo..hi] = [max lo (12 * y) .. min hi (12 * y + 11)]"
proof (rule sorted_distinct_set_unique)
  show "set (filter (\<lambda>k. k div 12 = y) [lo..hi]) = set [max lo (12 * y) .. min hi (12 * y + 11)]"
    by auto
qed (auto intro: sorted_wrt_filter)

lemma upto_as_map: "[a .. a + int n - 1] = map (\<lambda>i. a + int i) [0..<n]"
proof (induction n)
  case (Suc n)
  have "[a .. a + int (Suc n) - 1] = [a .. a + int n - 1] @ [a + int n]"
    using upto_rec2 [of a "a + int n"] by simp
  with Suc show ?case by simp
qed simp

lemma year_months: "[12 * y .. 12 * y + 11] = map (\<lambda>m. 12 * y + int m - 1) [1..<13]"
proof -
  have "[12 * y .. 12 * y + 11] = map (\<lambda>i. 12 * y + int i) [0..<12]"
    using upto_as_map [of "12 * y" 12] by (simp add: algebra_simps)
  also have "\<dots> = map (\<lambda>m. 12 * y + int m - 1) (map Suc [0..<12])"
    by (simp add: comp_def)
  also have "map Suc [0..<12] = [1..<13]"
    using map_Suc_upt [of 0 12] by simp
  finally show ?thesis .
qed

lemma year_month_end [simp]: "year (month_end k) = k div 12"
  by (simp add: month_end_def)

lemma month_month_end [simp]: "month (month_end k) = nat (k mod 12) + 1"
  by (simp add: month_end_def)

lemma month_index_month_end [simp]: "month_index (month_end k) = k"
  by (simp add: month_index_def month_end_def)

section \<open>The bins of a resampling\<close>

lemma bins_span: "rs \<noteq> [] \<Longrightarrow> bins rs = [lo_month rs .. hi_month rs]"
proof (cases rs)
  case (Cons r rs')
  have "fold min (map (month_index \<circ> fst) rs') (month_index (fst r)) = lo_month rs"
    using Min.set_eq_fold [of "month_index (fst r)" "map (month_index \<circ> fst) rs'"]
    by (simp add: lo_month_def Cons)
  moreover have "fold max (map (month_index \<circ> fst) rs') (month_index (fst r)) = hi_month rs"
    using Max.set_eq_fold [of "month_index (fst r)" "map (month_index \<circ> fst) rs'"]
    by (simp add: hi_month_def Cons)
  ultimately show ?thesis by (simp add: Cons)
qed simp

lemma set_bins: "set (bins rs) = (if rs = [] then {} else {lo_month rs .. hi_month rs})"
  by (simp add: bins_span)

lemma month_index_in_bins: "r \<in> set rs \<Longrightarrow> month_index (fst r) \<in> set (bins rs)"
proof -
  assume r: "r \<in> set rs"
  then have ne: "rs \<noteq> []" by auto
  have "month_index (fst r) \<in> set (map (month_index \<circ> fst) rs)" using r by auto
  then have "lo_month rs \<le> month_index (fst r)" "month_index (fst r) \<le> hi_month rs"
    unfolding lo_month_def hi_month_def by (auto intro: Min_le Max_ge)
  then show ?thesis using ne by (simp add: set_bins)
qed

lemma rows_resample [simp]:
  "rows (resample_M agg df) = map (\<lambda>k. (month_end k, agg (bucket (rows df) k))) (bins (rows df))"
  by (simp add: resample_M_def)

lemma map_of_inj_keys:
  "inj g \<Longrightarrow> map_of (map (\<lambda>k. (g k, h k)) ks) (g k0) = (if k0 \<in> set ks then Some (h k0) else None)"
  by (induction ks) (auto dest: injD)

lemma inj_month_key: "inj (\<lambda>k::int. (k div 12, nat (k mod 12) + 1))"
proof (rule injI)
  fix k k0 :: int
  assume "(k div 12, nat (k mod 12) + 1) = (k0 div 12, nat (k0 mod 12) + 1)"
  then have "k div 12 = k0 div 12 \<and> nat (k mod 12) = nat (k0 mod 12)"
    by (simp only: prod.inject add_right_cancel)
  then show "k = k0" by (simp only: month_key_inj)
qed

lemma map_of_month_keys:
  "map_of (map (\<lambda>k. ((k div 12, nat (k mod 12) + 1), h k)) ks) (k0 div 12, nat (k0 mod 12) + 1)
   = (if k0 \<in> set ks then Some (h k0) else None)"
  using map_of_inj_keys [OF inj_month_key, of h ks k0] .

lemma entry_resample:
  "entry (resample_M agg df) (k div 12, nat (k mod 12) + 1)
   = (if k \<in> set (bins (rows df)) then Some (agg (bucket (rows df) k)) else None)"
  using map_of_month_keys [of "\<lambda>k. agg (bucket (rows df) k)" "bins (rows df)" k]
  by (simp add: entry_def comp_def)

lemma entry_resample_ym:
  assumes "1 \<le> m" "m \<le> 12"
  shows "entry (resample_M agg df) (y, m)
   = (if 12 * y + int m - 1 \<in> set (bins (rows df))
      then Some (agg (bucket (rows df) (12 * y + int m - 1))) else None)"
proof -
  have "(12 * y + int m - 1) div 12 = y" "nat ((12 * y + int m - 1) mod 12) + 1 = m"
    using assms div_mod_12 [of "int m - 1" y] by (simp_all add: algebra_simps)
  then show ?thesis using entry_resample [of agg df "12 * y + int m - 1"] by simp
qed

section \<open>The year pivot of a resampled table\<close>

lemma year_rows_resample:
  "filter (\<lambda>r. year (fst r) = y) (rows (resample_M agg df))
   = map (\<lambda>k. (month_end k, agg (bucket (rows df) k))) (filter (\<lambda>k. k div 12 = y) (bins (rows df)))"
  by (simp add: filter_map comp_def)

lemma full_year_bins:
  "full_year (resample_M agg df) y \<longleftrightarrow> set [12 * y .. 12 * y + 11] \<subseteq> set (bins (rows df))"
proof -
  have "full_year (resample_M agg df) y
        \<longleftrightarrow> (\<forall>m\<in>set [1..<13]. 12 * y + int m - 1 \<in> set (bins (rows df)))"
    unfolding full_year_def list_all_iff
    by (intro ball_cong refl) (simp add: entry_resample_ym)
  also have "\<dots> \<longleftrightarrow> set (map (\<lambda>m. 12 * y + int m - 1) [1..<13]) \<subseteq> set (bins (rows df))"
    by auto
  finally show ?thesis by (simp only: year_months)
qed

lemma full_year_span:
  "full_year (resample_M agg df) y \<longleftrightarrow>
     rows df \<noteq> [] \<and> lo_month (rows df) \<le> 12 * y \<and> 12 * y + 11 \<le> hi_month (rows df)"
  by (auto simp: full_year_bins set_bins)

lemma year_rows_span:
  "rows df \<noteq> [] \<Longrightarrow>
   filter (\<lambda>r. year (fst r) = y) (rows (resample_M agg df))
   = map (\<lambda>k. (month_end k, agg (bucket (rows df) k)))
       [max (lo_month (rows df)) (12 * y) .. min (hi_month (rows df)) (12 * y + 11)]"
proof -
  assume "rows df \<noteq> []"
  then have "bins (rows df) = [lo_month (rows df) .. hi_month (rows df)]"
    by (rule bins_span)
  then show ?thesis
    by (simp only: year_rows_resample upto_filter_div12)
qed

lemma length_year_rows:
  "length (filter (\<lambda>r. year (fst r) = y) (rows (resample_M agg df))) = 12
   \<longleftrightarrow> full_year (resample_M agg df) y"
proof (cases "rows df = []")
  case True
  then show ?thesis by (simp add: full_year_span)
next
  case False
  have "length (filter (\<lambda>r. year (fst r) = y) (rows (resample_M agg df)))
        = nat (min (hi_month (rows df)) (12 * y + 11) - max (lo_month (rows df)) (12 * y) + 1)"
    by (simp only: year_rows_span [OF False] length_map length_upto)
  then show ?thesis
    using False by (simp only: full_year_span) auto
qed

lemma length_month_labels [simp]: "length month_labels = 12"
  by (simp add: month_labels_def)

lemma create_year_df_not_full:
  "\<not> full_year (resample_M agg df) y \<Longrightarrow> create_year_df (resample_M agg df) y = Inl ValueError"
  using length_year_rows [of y agg df]
  by (simp add: create_year_df_def set_index_def)

lemma create_year_df_full:
  assumes "full_year (resample_M agg df) y"
  shows "create_year_df (resample_M agg df) y =
           Inr \<lparr>rows = zip month_labels (map (\<lambda>m. agg (bucket (rows df) (12 * y + int m - 1))) [1..<13]),
                columns = ColInt y\<rparr>"
proof -
  from assms have sp: "rows df \<noteq> []" "lo_month (rows df) \<le> 12 * y" "12 * y + 11 \<le> hi_month (rows df)"
    by (simp_all add: full_year_span)
  have "max (lo_month (rows df)) (12 * y) = 12 * y" "min (hi_month (rows df)) (12 * y + 11) = 12 * y + 11"
    using sp by simp_all
  then have "filter (\<lambda>r. year (fst r) = y) (rows (resample_M agg df))
        = map (\<lambda>k. (month_end k, agg (bucket (rows df) k))) [12 * y .. 12 * y + 11]"
    by (simp only: year_rows_span [OF sp(1)])
  then have sel: "filter (\<lambda>r. year (fst r) = y) (rows (resample_M agg df))
        = map (\<lambda>m. (month_end (12 * y + int m - 1), agg (bucket (rows df) (12 * y + int m - 1)))) [1..<13]"
    by (simp only: year_months map_map comp_def)
  show ?thesis
    unfolding create_year_df_def set_index_def
    by (simp add: sel comp_def del: rows_resample)
qed

lemma full_year_entries:
  assumes "full_year (resample_M agg df) y"
  shows "map (\<lambda>m. entry (resample_M agg df) (y, m)) [1..<13]
         = map (\<lambda>m. Some (agg (bucket (rows df) (12 * y + int m - 1)))) [1..<13]"
proof (rule map_cong [OF refl])
  fix m assume m: "m \<in> set [1..<13]"
  then have "entry (resample_M agg df) (y, m) \<noteq> None"
    using assms by (simp add: full_year_def list_all_iff)
  then show "entry (resample_M agg df) (y, m) = Some (agg (bucket (rows df) (12 * y + int m - 1)))"
    using m by (simp add: entry_resample_ym split: if_splits)
qed

section \<open>The entries of a resampled table\<close>

lemma month_index_eq:
  assumes "valid_month d" "1 \<le> m" "m \<le> 12"
  shows "month_index d = 12 * y + int m - 1 \<longleftrightarrow> year d = y \<and> month d = m"
proof -
  have d: "month_index d div 12 = year d" "month_index d mod 12 = int (month d) - 1"
    using assms(1) div_mod_12 [of "int (month d) - 1" "year d"]
    by (simp_all add: valid_month_def month_index_def algebra_simps)
  have k: "(12 * y + int m - 1) div 12 = y" "(12 * y + int m - 1) mod 12 = int m - 1"
    using assms(2,3) div_mod_12 [of "int m - 1" y] by (simp_all add: algebra_simps)
  show ?thesis
  proof
    assume "month_index d = 12 * y + int m - 1"
    with d k show "year d = y \<and> month d = m" by simp
  next
    assume "year d = y \<and> month d = m"
    then show "month_index d = 12 * y + int m - 1" by (simp add: month_index_def)
  qed
qed

lemma entry_resample_span:
  assumes "1 \<le> m" "m \<le> 12"
  shows "entry (resample_M agg df) (y, m)
         = (if in_span (rows df) y m then Some (agg (bucket (rows df) (12 * y + int m - 1))) else None)"
  using assms by (simp add: entry_resample_ym set_bins in_span_def)

lemma in_span_row:
  assumes "r \<in> set rs"
  shows "in_span rs (year (fst r)) (month (fst r))"
proof -
  have "month_index (fst r) \<in> set (bins rs)" using assms by (rule month_index_in_bins)
  moreover have "rs \<noteq> []" using assms by auto
  ultimately show ?thesis by (simp add: set_bins in_span_def month_index_def)
qed

lemma bucket_month:
  assumes "list_all (valid_month \<circ> fst) rs" "1 \<le> m" "m \<le> 12"
  shows "bucket rs (12 * y + int m - 1) = map snd (filter (\<lambda>r. year (fst r) = y \<and> month (fst r) = m) rs)"
  unfolding bucket_def
proof (rule arg_cong [where f = "map snd"], rule filter_cong [OF refl])
  fix r assume "r \<in> set rs"
  then have "valid_month (fst r)" using assms(1) by (simp add: list_all_iff)
  then show "(month_index (fst r) = 12 * y + int m - 1) = (year (fst r) = y \<and> month (fst r) = m)"
    using assms(2,3) by (rule month_index_eq)
qed

lemma rows_above: "rows (above t df) = filter (is_above t) (rows df)"
  by (simp add: above_def)

lemma count_agg_above:
  "count_agg (map snd (filter P (filter (is_above t) rs))) = length (filter (\<lambda>r. P r \<and> is_above t r) rs)"
proof -
  have "filter (\<lambda>v. v \<noteq> None) (map snd (filter P (filter (is_above t) rs)))
        = map snd (filter P (filter (is_above t) rs))"
    by (rule filter_True) (auto simp: is_above_def split: option.splits)
  then show ?thesis by (simp add: count_agg_def conj_commute)
qed

lemma count_bucket_above:
  assumes "list_all (valid_month \<circ> fst) (rows df)" "1 \<le> m" "m \<le> 12"
  shows "count_agg (bucket (rows (above t df)) (12 * y + int m - 1)) = days_above t df y m"
proof -
  have v: "list_all (valid_month \<circ> fst) (rows (above t df))"
    using assms(1) by (simp add: rows_above list_all_iff)
  have "bucket (rows (above t df)) (12 * y + int m - 1)
        = map snd (filter (\<lambda>r. year (fst r) = y \<and> month (fst r) = m) (rows (above t df)))"
    using v assms(2,3) by (rule bucket_month)
  then have "count_agg (bucket (rows (above t df)) (12 * y + int m - 1))
        = count_agg (map snd (filter (\<lambda>r. year (fst r) = y \<and> month (fst r) = m)
                                (filter (is_above t) (rows df))))"
    by (simp only: rows_above)
  also have "\<dots> = length (filter (\<lambda>r. (year (fst r) = y \<and> month (fst r) = m) \<and> is_above t r) (rows df))"
    by (rule count_agg_above)
  finally show ?thesis
    by (simp only: days_above_def conj_assoc)
qed

section \<open>The year table of a resampled table\<close>

lemma distinct_month_labels: "distinct month_labels"
  by (simp add: month_labels_def gatsu_def)

lemma map_of_zip_self:
  "distinct xs \<Longrightarrow> length xs = length ys \<Longrightarrow> map (map_of (zip xs ys)) xs = map Some ys"
proof (induction xs ys rule: list_induct2')
  case (4 x xs y ys)
  then have "map (map_of (zip xs ys)) xs = map Some ys" by simp
  moreover have "map (\<lambda>a. if a = x then Some y else map_of (zip xs ys) a) xs = map (map_of (zip xs ys)) xs"
    using 4(2) by (intro map_cong refl) auto
  ultimately show ?case by (simp add: fun_upd_def)
qed simp_all

lemma realign_column:
  assumes "distinct xs" "length xs = length vs"
  shows "map (\<lambda>l. case map_of (zip xs vs) l of None \<Rightarrow> None | Some v \<Rightarrow> v) xs = vs"
proof -
  have "map (\<lambda>l. case map_of (zip xs vs) l of None \<Rightarrow> None | Some v \<Rightarrow> v) xs
        = map (\<lambda>o'. case o' of None \<Rightarrow> None | Some v \<Rightarrow> v) (map (map_of (zip xs vs)) xs)"
    by (simp add: comp_def)
  also have "\<dots> = map (\<lambda>o'. case o' of None \<Rightarrow> None | Some v \<Rightarrow> v) (map Some vs)"
    using assms by (simp only: map_of_zip_self)
  also have "\<dots> = vs" by (simp add: comp_def)
  finally show ?thesis .
qed

lemma concat_axis1_aligned:
  assumes "aligned t" "length vs = 12"
  shows "concat_axis1 t \<lparr>rows = zip month_labels vs, columns = c\<rparr>
         = \<lparr>t_index = month_labels, t_columns = t_columns t @ [(c, map Some vs)]\<rparr>"
proof -
  have new: "map (map_of (zip month_labels vs)) month_labels = map Some vs"
    using assms(2) by (simp add: map_of_zip_self distinct_month_labels)
  have fst_rows: "map fst (zip month_labels vs) = month_labels"
    using assms(2) by simp
  from assms(1) consider
      "t_index t = []" "t_columns t = []"
    | "t_index t = month_labels" "list_all (\<lambda>c. length (snd c) = 12) (t_columns t)"
    unfolding aligned_def by blast
  then show ?thesis
  proof cases
    case 1
    then show ?thesis
      by (simp add: concat_axis1_def fst_rows new)
  next
    case 2
    have old: "map (\<lambda>c. (fst c, map (\<lambda>l. case map_of (zip month_labels (snd c)) l of
                                          None \<Rightarrow> None | Some v \<Rightarrow> v) month_labels)) (t_columns t)
               = t_columns t"
    proof (rule map_idI)
      fix c assume "c \<in> set (t_columns t)"
      then have "length month_labels = length (snd c)"
        using 2(2) by (simp add: list_all_iff)
      then show "(fst c, map (\<lambda>l. case map_of (zip month_labels (snd c)) l of
                                          None \<Rightarrow> None | Some v \<Rightarrow> v) month_labels) = c"
        using realign_column [OF distinct_month_labels, of "snd c"] by (simp add: prod_eq_iff)
    qed
    show ?thesis
      using 2(1) by (simp add: concat_axis1_def fst_rows new old)
  qed
qed

lemma year_loop_resample:
  assumes "aligned t0"
  shows "year_loop (resample_M agg df) ys t0 = Inr t \<Longrightarrow>
           t_columns t = t_columns t0 @ map (year_column (resample_M agg df)) ys
           \<and> (ys \<noteq> [] \<longrightarrow> t_index t = month_labels)
           \<and> list_all (full_year (resample_M agg df)) ys"
  using assms
proof (induction ys arbitrary: t0)
  case Nil
  then show ?case by simp
next
  case (Cons y ys)
  let ?A = "resample_M agg df"
  let ?vs = "map (\<lambda>m. agg (bucket (rows df) (12 * y + int m - 1))) [1..<13]"
  have full: "full_year ?A y"
    using Cons.prems(1) create_year_df_not_full [of agg df y] by (cases "full_year ?A y") auto
  have cy: "create_year_df ?A y = Inr \<lparr>rows = zip month_labels ?vs, columns = ColInt y\<rparr>"
    using full by (rule create_year_df_full)
  have len: "length ?vs = 12" by simp
  let ?t1 = "\<lparr>t_index = month_labels, t_columns = t_columns t0 @ [(ColInt y, map Some ?vs)]\<rparr>"
  have step: "concat_axis1 t0 \<lparr>rows = zip month_labels ?vs, columns = ColInt y\<rparr> = ?t1"
    using Cons.prems(2) len by (rule concat_axis1_aligned)
  have al: "aligned ?t1"
    using Cons.prems(2) by (auto simp: aligned_def)
  have rest: "year_loop ?A ys ?t1 = Inr t"
    using Cons.prems(1) by (simp only: year_loop.simps cy sum.case step)
  have col: "(ColInt y, map Some ?vs) = year_column ?A y"
    using full_year_entries [OF full] by (simp only: year_column_def map_map comp_def)
  have "t_index t = month_labels"
  proof (cases ys)
    case Nil then show ?thesis using rest by auto
  next
    case (Cons a list) then show ?thesis using Cons.IH [OF rest al] by simp
  qed
  then show ?case
    using Cons.IH [OF rest al] full col by simp
qed

lemma year_min_first: "rs \<noteq> [] \<Longrightarrow> year_min rs = Some (first_year rs)"
proof (cases rs)
  case (Cons r rs')
  show ?thesis
    using Min.set_eq_fold [of "year (fst r)" "map (year \<circ> fst) rs'"]
    by (simp add: first_year_def Cons)
qed simp

lemma year_max_last: "rs \<noteq> [] \<Longrightarrow> year_max rs = Some (last_year rs)"
proof (cases rs)
  case (Cons r rs')
  show ?thesis
    using Max.set_eq_fold [of "year (fst r)" "map (year \<circ> fst) rs'"]
    by (simp add: last_year_def Cons)
qed simp

lemma aligned_empty: "aligned empty_table"
  by (simp add: aligned_def empty_table_def)

section \<open>The loader\<close>

lemma those_map_Some: "those xs = Some ys \<Longrightarrow> xs = map Some ys"
  by (induction xs arbitrary: ys) (auto split: option.splits)

lemma those_length: "those xs = Some ys \<Longrightarrow> length ys = length xs"
  by (drule those_map_Some) simp

lemma year_table_cells:
  assumes "rows df \<noteq> []"
      and "year_table (resample_M agg df') (year_min (rows df)) (year_max (rows df)) = Inr t"
  shows "t_columns t = map (year_column (resample_M agg df')) [first_year (rows df) .. last_year (rows df) - 1]"
proof -
  let ?ys = "[first_year (rows df) .. last_year (rows df) - 1]"
  have loop: "year_loop (resample_M agg df') ?ys empty_table = Inr t"
    using assms(2)
    by (simp add: year_table_def year_min_first [OF assms(1)] year_max_last [OF assms(1)])
  show ?thesis
    using year_loop_resample [OF aligned_empty loop] by (simp add: empty_table_def)
qed

section \<open>Counting above two thresholds\<close>

lemma filter_length_mono:
  assumes "\<And>x. P x \<Longrightarrow> Q x"
  shows "length (filter P xs) \<le> length (filter Q xs)"
  using assms by (induction xs) auto

lemma filter_length_strict:
  assumes "\<And>x. P x \<Longrightarrow> Q x" "r \<in> set xs" "Q r" "\<not> P r"
  shows "length (filter P xs) < length (filter Q xs)"
  using assms(2)
proof (induction xs)
  case (Cons x xs)
  have le: "length (filter P xs) \<le> length (filter Q xs)"
    using assms(1) by (rule filter_length_mono)
  show ?case
  proof (cases "r = x")
    case True
    then show ?thesis using assms(3,4) le by simp
  next
    case False
    then have "length (filter P xs) < length (filter Q xs)" using Cons by simp
    then show ?thesis using assms(1) [of x] by auto
  qed
qed simp

lemma is_above_mono: "is_above 1 r \<Longrightarrow> is_above 0 r"
  by (auto simp: is_above_def split: option.splits)

lemma days_above_drizzle:
  assumes "r \<in> set (rows df)" "snd r = Some x" "0 < x" "x \<le> 1"
  shows "days_above 1 df (year (fst r)) (month (fst r)) < days_above 0 df (year (fst r)) (month (fst r))"
  unfolding days_above_def
proof (rule filter_length_strict [where r = r])
  show "r \<in> set (rows df)" by fact
  show "year (fst r) = year (fst r) \<and> month (fst r) = month (fst r) \<and> is_above 0 r"
    using assms(2,3) by (simp add: is_above_def)
  show "\<not> (year (fst r) = year (fst r) \<and> month (fst r) = month (fst r) \<and> is_above 1 r)"
    using assms(2,4) by (simp add: is_above_def)
qed (auto dest: is_above_mono)

lemma drizzle_entries:
  assumes v: "list_all (valid_month \<circ> fst) (rows df)"
      and r: "r \<in> set (rows df)" "snd r = Some x" "0 < x" "x \<le> 1"
  shows "entry (resample_M count_agg (above 0 df)) (year (fst r), month (fst r))
         \<noteq> entry (resample_M count_agg (above 1 df)) (year (fst r), month (fst r))"
proof -
  have vm: "valid_month (fst r)" using v r(1) by (simp add: list_all_iff)
  then have m: "1 \<le> month (fst r)" "month (fst r) \<le> 12" by (simp_all add: valid_month_def)
  have "r \<in> set (rows (above 0 df))"
    using r(1,2,3) by (simp add: rows_above is_above_def)
  then have sp: "in_span (rows (above 0 df)) (year (fst r)) (month (fst r))"
    by (rule in_span_row)
  have e0: "entry (resample_M count_agg (above 0 df)) (year (fst r), month (fst r))
            = Some (days_above 0 df (year (fst r)) (month (fst r)))"
    using sp by (simp add: entry_resample_span [OF m] count_bucket_above [OF v m])
  have e1: "entry (resample_M count_agg (above 1 df)) (year (fst r), month (fst r))
            = (if in_span (rows (above 1 df)) (year (fst r)) (month (fst r))
               then Some (days_above 1 df (year (fst r)) (month (fst r))) else None)"
    by (simp add: entry_resample_span [OF m] count_bucket_above [OF v m])
  show ?thesis
    using days_above_drizzle [OF r] by (simp add: e0 e1)
qed

lemma year_column_differs:
  assumes "1 \<le> m" "m \<le> 12" "entry A (y, m) \<noteq> entry B (y, m)"
  shows "year_column A y \<noteq> year_column B y"
proof
  assume "year_column A y = year_column B y"
  then have "map (\<lambda>m. entry A (y, m)) [1..<13] = map (\<lambda>m. entry B (y, m)) [1..<13]"
    by (simp add: year_column_def)
  moreover have "m \<in> set [1..<13]" using assms(1,2) by simp
  ultimately have "entry A (y, m) = entry B (y, m)"
    by (simp only: map_eq_conv)
  with assms(3) show False by simp
qed

section \<open>When the year table is assembled\<close>

lemma year_loop_resample_eq:
  assumes "aligned t0"
  shows "year_loop (resample_M agg df) ys t0
         = (if list_all (full_year (resample_M agg df)) ys
            then Inr \<lparr>t_index = (if ys = [] then t_index t0 else month_labels),
                      t_columns = t_columns t0 @ map (year_column (resample_M agg df)) ys\<rparr>
            else Inl ValueError)"
  using assms
proof (induction ys arbitrary: t0)
  case Nil
  then show ?case by simp
next
  case (Cons y ys)
  let ?A = "resample_M agg df"
  show ?case
  proof (cases "full_year ?A y")
    case False
    then show ?thesis
      by (simp add: create_year_df_not_full)
  next
    case True
    let ?vs = "map (\<lambda>m. agg (bucket (rows df) (12 * y + int m - 1))) [1..<13]"
    have cy: "create_year_df ?A y = Inr \<lparr>rows = zip month_labels ?vs, columns = ColInt y\<rparr>"
      using True by (rule create_year_df_full)
    have len: "length ?vs = 12" by simp
    let ?t1 = "\<lparr>t_index = month_labels, t_columns = t_columns t0 @ [(ColInt y, map Some ?vs)]\<rparr>"
    have step: "concat_axis1 t0 \<lparr>rows = zip month_labels ?vs, columns = ColInt y\<rparr> = ?t1"
      using Cons.prems len by (rule concat_axis1_aligned)
    have al: "aligned ?t1"
      using Cons.prems by (auto simp: aligned_def)
    have col: "(ColInt y, map Some ?vs) = year_column ?A y"
      using full_year_entries [OF True] by (simp only: year_column_def map_map comp_def)
    have "year_loop ?A (y # ys) t0 = year_loop ?A ys ?t1"
      by (simp only: year_loop.simps cy sum.case step)
    also have "\<dots> = (if list_all (full_year ?A) ys
            then Inr \<lparr>t_index = (if ys = [] then t_index ?t1 else month_labels),
                      t_columns = t_columns ?t1 @ map (year_column ?A) ys\<rparr>
            else Inl ValueError)"
      using al by (rule Cons.IH)
    finally show ?thesis
      using True col by simp
  qed
qed

lemma month_index_bounds:
  "valid_month d \<Longrightarrow> 12 * year d \<le> month_index d \<and> month_index d \<le> 12 * year d + 11"
  by (simp add: valid_month_def month_index_def)

lemma lo_month_first_year:
  assumes "rs \<noteq> []" "list_all (valid_month \<circ> fst) rs"
  shows "12 * first_year rs \<le> lo_month rs" "lo_month rs \<le> 12 * first_year rs + 11"
proof -
  let ?M = "set (map (month_index \<circ> fst) rs)" and ?Y = "set (map (year \<circ> fst) rs)"
  have fin: "finite ?M" "?M \<noteq> {}" "finite ?Y" "?Y \<noteq> {}" using assms(1) by auto
  have "lo_month rs \<in> ?M" unfolding lo_month_def using fin by (intro Min_in)
  then obtain r where r: "r \<in> set rs" "lo_month rs = month_index (fst r)" by auto
  have "first_year rs \<le> year (fst r)"
    unfolding first_year_def using r(1) by (intro Min_le) auto
  moreover have "12 * year (fst r) \<le> month_index (fst r)"
    using month_index_bounds [of "fst r"] assms(2) r(1) by (simp add: list_all_iff)
  ultimately show "12 * first_year rs \<le> lo_month rs" using r(2) by simp
  have "first_year rs \<in> ?Y" unfolding first_year_def using fin by (intro Min_in)
  then obtain q where q: "q \<in> set rs" "first_year rs = year (fst q)" by auto
  have "lo_month rs \<le> month_index (fst q)"
    unfolding lo_month_def using q(1) by (intro Min_le) auto
  moreover have "month_index (fst q) \<le> 12 * year (fst q) + 11"
    using month_index_bounds [of "fst q"] assms(2) q(1) by (simp add: list_all_iff)
  ultimately show "lo_month rs \<le> 12 * first_year rs + 11" using q(2) by simp
qed

lemma hi_month_last_year:
  assumes "rs \<noteq> []" "list_all (valid_month \<circ> fst) rs"
  shows "12 * last_year rs \<le> hi_month rs" "hi_month rs \<le> 12 * last_year rs + 11"
proof -
  let ?M = "set (map (month_index \<circ> fst) rs)" and ?Y = "set (map (year \<circ> fst) rs)"
  have fin: "finite ?M" "?M \<noteq> {}" "finite ?Y" "?Y \<noteq> {}" using assms(1) by auto
  have "hi_month rs \<in> ?M" unfolding hi_month_def using fin by (intro Max_in)
  then obtain r where r: "r \<in> set rs" "hi_month rs = month_index (fst r)" by auto
  have "year (fst r) \<le> last_year rs"
    unfolding last_year_def using r(1) by (intro Max_ge) auto
  moreover have "month_index (fst r) \<le> 12 * year (fst r) + 11"
    using month_index_bounds [of "fst r"] assms(2) r(1) by (simp add: list_all_iff)
  ultimately show "hi_month rs \<le> 12 * last_year rs + 11" using r(2) by simp
  have "last_year rs \<in> ?Y" unfolding last_year_def using fin by (intro Max_in)
  then obtain q where q: "q \<in> set rs" "last_year rs = year (fst q)" by auto
  have "month_index (fst q) \<le> hi_month rs"
    unfolding hi_month_def using q(1) by (intro Max_ge) auto
  moreover have "12 * year (fst q) \<le> month_index (fst q)"
    using month_index_bounds [of "fst q"] assms(2) q(1) by (simp add: list_all_iff)
  ultimately show "12 * last_year rs \<le> hi_month rs" using q(2) by simp
qed

lemma first_le_last_year: "rs \<noteq> [] \<Longrightarrow> first_year rs \<le> last_year rs"
proof -
  assume "rs \<noteq> []"
  then obtain r where "r \<in> set rs" by (cases rs) auto
  then have "first_year rs \<le> year (fst r)" "year (fst r) \<le> last_year rs"
    unfolding first_year_def last_year_def by (auto intro: Min_le Max_ge)
  then show ?thesis by simp
qed

lemma full_years_span:
  assumes "rs \<noteq> []" "list_all (valid_month \<circ> fst) rs" "rows df = rs"
  shows "list_all (full_year (resample_M agg df)) [first_year rs .. last_year rs - 1]
         \<longleftrightarrow> first_year rs = last_year rs \<or> lo_month rs = 12 * first_year rs"
proof -
  note lo = lo_month_first_year [OF assms(1,2)] and hi = hi_month_last_year [OF assms(1,2)]
  note fl = first_le_last_year [OF assms(1)]
  have full: "full_year (resample_M agg df) y \<longleftrightarrow> lo_month rs \<le> 12 * y \<and> 12 * y + 11 \<le> hi_month rs" for y
    using assms(1,3) by (simp add: full_year_span)
  show ?thesis
  proof (cases "first_year rs = last_year rs")
    case True
    then show ?thesis by simp
  next
    case False
    then have lt: "first_year rs < last_year rs" using fl by simp
    have "list_all (full_year (resample_M agg df)) [first_year rs .. last_year rs - 1]
          \<longleftrightarrow> (\<forall>y. first_year rs \<le> y \<and> y \<le> last_year rs - 1 \<longrightarrow> lo_month rs \<le> 12 * y \<and> 12 * y + 11 \<le> hi_month rs)"
      by (auto simp: list_all_iff full)
    also have "\<dots> \<longleftrightarrow> lo_month rs \<le> 12 * first_year rs"
    proof
      assume a: "\<forall>y. first_year rs \<le> y \<and> y \<le> last_year rs - 1 \<longrightarrow> lo_month rs \<le> 12 * y \<and> 12 * y + 11 \<le> hi_month rs"
      show "lo_month rs \<le> 12 * first_year rs"
        using a [rule_format, of "first_year rs"] lt by simp
    next
      assume b: "lo_month rs \<le> 12 * first_year rs"
      show "\<forall>y. first_year rs \<le> y \<and> y \<le> last_year rs - 1 \<longrightarrow> lo_month rs \<le> 12 * y \<and> 12 * y + 11 \<le> hi_month rs"
      proof (intro allI impI)
        fix y assume "first_year rs \<le> y \<and> y \<le> last_year rs - 1"
        then show "lo_month rs \<le> 12 * y \<and> 12 * y + 11 \<le> hi_month rs"
          using b hi(1) by simp
      qed
    qed
    also have "\<dots> \<longleftrightarrow> lo_month rs = 12 * first_year rs"
      using lo(1) by auto
    finally show ?thesis using False by simp
  qed
qed

lemma year_table_resample:
  assumes "rows df \<noteq> []"
  shows "year_table (resample_M agg df') (year_min (rows df)) (year_max (rows df))
         = (if list_all (full_year (resample_M agg df')) [first_year (rows df) .. last_year (rows df) - 1]
            then Inr \<lparr>t_index = (if first_year (rows df) < last_year (rows df) then month_labels else []),
                      t_columns = map (year_column (resample_M agg df'))
                                    [first_year (rows df) .. last_year (rows df) - 1]\<rparr>
            else Inl ValueError)"
proof -
  have e: "[first_year (rows df) .. last_year (rows df) - 1] = [] \<longleftrightarrow> \<not> first_year (rows df) < last_year (rows df)"
    by auto
  show ?thesis
    unfolding year_table_def year_min_first [OF assms] year_max_last [OF assms] py_range.simps sum.case
      year_loop_resample_eq [OF aligned_empty] e
    by (simp add: empty_table_def)
qed

section \<open>A run and the process state\<close>

lemmas plot_defs = plot_rain_fall_plt_def plot_rainy_days_plt_def plot_original_data_px_def
  plot_rain_amount_px_def plot_rainy_days_px_def plot_bar_def

lemma plt_charts_world:
  "plt_charts fsum df sy ey w
   = (fst (plt_charts fsum df sy ey pandas_defaults),
      w\<lparr>font_family := ''Ricty Diminished'',
        events := events w @ events (snd (plt_charts fsum df sy ey pandas_defaults))\<rparr>)"
  by (simp add: plt_charts_def plot_defs pandas_defaults_def split: sum.splits)

lemma px_charts_world:
  "px_charts fsum df sy ey w
   = (fst (px_charts fsum df sy ey pandas_defaults),
      w\<lparr>events := events w @ events (snd (px_charts fsum df sy ey pandas_defaults))\<rparr>)"
  by (simp add: px_charts_def plot_defs pandas_defaults_def split: sum.splits)

lemma main_load_error:
  "read_csv td fs hiyoshi = Inl e \<Longrightarrow>
   main td fsum fs g w = (Inl e, w\<lparr>display_max_rows := 500, display_precision := 1\<rparr>)"
  by (simp add: main_def read_csv_data_def)

lemma main_object_index:
  "read_csv td fs hiyoshi = Inr (ObjectFrame df) \<Longrightarrow>
   main td fsum fs g w = (Inl AttributeError, w\<lparr>display_max_rows := 500, display_precision := 1\<rparr>)"
  by (simp add: main_def read_csv_data_def)

lemma main_index_years:
  "read_csv td fs hiyoshi = Inr ld \<Longrightarrow> index_years ld = Inr (sy, ey) \<Longrightarrow>
   main td fsum fs g w =
     (if g = ''plt''
      then plt_charts fsum (set_columns (ColStr precipitation) ld) sy ey
             (w\<lparr>display_max_rows := 500, display_precision := 1\<rparr>)
      else px_charts fsum (set_columns (ColStr precipitation) ld) sy ey
             (w\<lparr>display_max_rows := 500, display_precision := 1\<rparr>))"
  by (cases ld) (simp_all add: main_def read_csv_data_def timed_def split: if_splits)

lemma main_world:
  "main td fsum fs g w
   = (run_result td fsum fs g, effect (run_font td fsum fs g) (run_events td fsum fs g) w)"
proof (cases "read_csv td fs hiyoshi")
  case (Inl e)
  show ?thesis
    by (simp add: main_load_error [OF Inl] run_result_def run_events_def run_font_def effect_def
          pandas_defaults_def)
next
  case (Inr ld)
  show ?thesis
  proof (cases "index_years ld")
    case (Inl e)
    then obtain df where "ld = ObjectFrame df" "e = AttributeError"
      by (cases ld) (auto split: if_splits)
    with Inr have l: "read_csv td fs hiyoshi = Inr (ObjectFrame df)" by simp
    show ?thesis
      using \<open>e = AttributeError\<close>
      by (simp add: main_object_index [OF l] run_result_def run_events_def run_font_def effect_def
            pandas_defaults_def)
  next
    case (Inr b)
    obtain sy ey where b: "b = (sy, ey)" by (cases b)
    note m = main_index_years [OF \<open>read_csv td fs hiyoshi = Inr ld\<close> Inr [unfolded b]]
    let ?df = "set_columns (ColStr precipitation) ld"
    let ?w = "w\<lparr>display_max_rows := 500, display_precision := 1\<rparr>"
    let ?p = "pandas_defaults\<lparr>display_max_rows := 500, display_precision := 1\<rparr> :: 'a world"
    show ?thesis
    proof (cases "g = ''plt''")
      case True
      have a: "main td fsum fs g w = plt_charts fsum ?df sy ey ?w"
        and b: "main td fsum fs g pandas_defaults = plt_charts fsum ?df sy ey ?p"
        using True by (simp_all add: m)
      show ?thesis
        unfolding run_result_def run_events_def run_font_def a b
        by (subst plt_charts_world, subst (2 3 4) plt_charts_world)
           (simp add: effect_def pandas_defaults_def)
    next
      case False
      have a: "main td fsum fs g w = px_charts fsum ?df sy ey ?w"
        and b: "main td fsum fs g pandas_defaults = px_charts fsum ?df sy ey ?p"
        using False by (simp_all add: m)
      show ?thesis
        unfolding run_result_def run_events_def run_font_def a b
        by (subst px_charts_world, subst (2 3 4) px_charts_world)
           (simp add: effect_def pandas_defaults_def)
    qed
  qed
qed

lemma read_csv_cong: "fs fn = fs' fn \<Longrightarrow> read_csv td fs fn = read_csv td fs' fn"
  by (simp add: read_csv_def)

section \<open>The loader and the errors of a run\<close>

















section \<open>The rainy-day tables of the two modes\<close>

lemma main_loaded:
  "fst (read_csv_data td fs hiyoshi w) = Inr (DatetimeFrame df) \<Longrightarrow>
   main td fsum fs g w =
     (if g = ''plt''
      then plt_charts fsum (DatetimeFrame df) (year_min (rows df)) (year_max (rows df))
             (w\<lparr>display_max_rows := 500, display_precision := 1\<rparr>)
      else px_charts fsum (DatetimeFrame df) (year_min (rows df)) (year_max (rows df))
             (w\<lparr>display_max_rows := 500, display_precision := 1\<rparr>))"
  by (auto simp: main_def read_csv_data_def split: sum.splits)

lemma plt_charts_days:
  "plt_charts fsum (DatetimeFrame df) sy ey w = (Inr (), w1) \<Longrightarrow>
   \<exists>t1. year_table (resample_M count_agg (above 1 df)) sy ey = Inr t1
        \<and> days_displayed w1 = days_displayed w @ [t1]"
  by (auto simp: plt_charts_def plot_defs days_displayed_def List.map_filter_def
           split: sum.splits if_splits)

lemma px_charts_days:
  "px_charts fsum (DatetimeFrame df) sy ey w = (Inr (), w0) \<Longrightarrow>
   \<exists>t0. year_table (resample_M count_agg (above 0 df)) sy ey = Inr t0
        \<and> days_displayed w0 = days_displayed w @ [t0]"
  by (auto simp: px_charts_def plot_defs days_displayed_def List.map_filter_def split: sum.splits)

lemma drizzle_iff: "is_above 0 r \<and> \<not> is_above 1 r \<longleftrightarrow> (\<exists>x. snd r = Some x \<and> 0 < x \<and> x \<le> 1)"
  by (auto simp: is_above_def split: option.splits)

lemma days_above_same:
  assumes "\<And>r. r \<in> set (rows df) \<Longrightarrow> year (fst r) = y \<Longrightarrow> is_above 0 r \<Longrightarrow> is_above 1 r"
  shows "days_above 1 df y m = days_above 0 df y m"
  unfolding days_above_def
  by (rule arg_cong [where f = length], rule filter_cong [OF refl])
     (use assms is_above_mono in blast)

lemma full_year_count_entry:
  assumes "list_all (valid_month \<circ> fst) (rows df)" "full_year (resample_M count_agg (above t df)) y"
      and "m \<in> set [1..<13]"
  shows "entry (resample_M count_agg (above t df)) (y, m) = Some (days_above t df y m)"
proof -
  have m: "1 \<le> m" "m \<le> 12" using assms(3) by simp_all
  have "entry (resample_M count_agg (above t df)) (y, m) \<noteq> None"
    using assms(2,3) by (simp add: full_year_def list_all_iff)
  then show ?thesis
    by (simp add: entry_resample_span [OF m] count_bucket_above [OF assms(1) m] split: if_splits)
qed

lemma year_tables_same:
  assumes v: "list_all (valid_month \<circ> fst) (rows df)" and ne: "rows df \<noteq> []"
      and t1: "year_table (resample_M count_agg (above 1 df)) (year_min (rows df)) (year_max (rows df)) = Inr t1"
      and t0: "year_table (resample_M count_agg (above 0 df)) (year_min (rows df)) (year_max (rows df)) = Inr t0"
      and no: "\<And>r. r \<in> set (rows df) \<Longrightarrow> year (fst r) < last_year (rows df) \<Longrightarrow> is_above 0 r \<Longrightarrow> is_above 1 r"
  shows "t1 = t0"
proof -
  let ?ys = "[first_year (rows df) .. last_year (rows df) - 1]"
  let ?A1 = "resample_M count_agg (above 1 df)" and ?A0 = "resample_M count_agg (above 0 df)"
  let ?ix = "if first_year (rows df) < last_year (rows df) then month_labels else []"
  have f1: "list_all (full_year ?A1) ?ys" and e1: "t1 = \<lparr>t_index = ?ix, t_columns = map (year_column ?A1) ?ys\<rparr>"
    using t1 unfolding year_table_resample [OF ne] by (simp_all split: if_splits)
  have f0: "list_all (full_year ?A0) ?ys" and e0: "t0 = \<lparr>t_index = ?ix, t_columns = map (year_column ?A0) ?ys\<rparr>"
    using t0 unfolding year_table_resample [OF ne] by (simp_all split: if_splits)
  have "map (year_column ?A1) ?ys = map (year_column ?A0) ?ys"
  proof (rule map_cong [OF refl])
    fix y assume y: "y \<in> set ?ys"
    then have lt: "y < last_year (rows df)" by simp
    have fy1: "full_year ?A1 y" and fy0: "full_year ?A0 y"
      using f1 f0 y by (simp_all add: list_all_iff)
    have "map (\<lambda>m. entry ?A1 (y, m)) [1..<13] = map (\<lambda>m. entry ?A0 (y, m)) [1..<13]"
    proof (rule map_cong [OF refl])
      fix m assume m: "m \<in> set [1..<13]"
      have "days_above 1 df y m = days_above 0 df y m"
        using no lt by (intro days_above_same) simp
      then show "entry ?A1 (y, m) = entry ?A0 (y, m)"
        by (simp only: full_year_count_entry [OF v fy1 m] full_year_count_entry [OF v fy0 m])
    qed
    then show "year_column ?A1 y = year_column ?A0 y"
      by (simp only: year_column_def)
  qed
  then show ?thesis by (simp only: e1 e0)
qed


section \<open>The store\<close>

lemma deref_append [simp]: "a < length h \<Longrightarrow> deref (h @ h') a = Some (h ! a)"
  by (simp add: deref_def nth_append)

lemma deref_in [simp]: "a < length h \<Longrightarrow> deref h a = Some (h ! a)"
  by (simp add: deref_def)

lemma deref_new [simp]: "deref (h @ x # h') (length h) = Some x"
  by (simp add: deref_def)

lemma create_year_df_st_run:
  assumes "agg < length h" "h ! agg = DateIndexed A"
  shows "create_year_df_st h agg y
         = (case create_year_df A y of
              Inl e \<Rightarrow> (Raises e, h @ [DateIndexed (A\<lparr>rows := filter (\<lambda>r. year (fst r) = y) (rows A)\<rparr>)])
            | Inr r \<Rightarrow> (Returns (length h), h @ [LabelIndexed r]))"
  using assms
  by (simp add: create_year_df_st_def select_year_def assign_index_def assign_columns_def
        create_year_df_def set_index_def)

lemma concat_st_run:
  assumes "t < length h" "h ! t = Wide T" "d < length h" "h ! d = LabelIndexed D"
  shows "concat_st h t d = (Returns (length h), h @ [Wide (concat_axis1 T D)])"
  using assms by (simp add: concat_st_def)

lemma year_loop_st_run:
  assumes "agg < length h" "h ! agg = DateIndexed A" "t < length h" "h ! t = Wide T"
  shows "\<exists>h'. snd (year_loop_st h agg ys t) = h @ h'
            \<and> (case year_loop A ys T of
                  Inl e \<Rightarrow> fst (year_loop_st h agg ys t) = Raises e
                | Inr T' \<Rightarrow> \<exists>n < length (h @ h'). fst (year_loop_st h agg ys t) = Returns n
                                                  \<and> (h @ h') ! n = Wide T')"
  using assms
proof (induction ys arbitrary: h t T)
  case Nil
  then show ?case by (intro exI [of _ "[]"]) simp
next
  case (Cons y ys)
  note run = create_year_df_st_run [OF Cons.prems(1,2), of y]
  show ?case
  proof (cases "create_year_df A y")
    case (Inl e)
    then show ?thesis using run by simp
  next
    case (Inr r)
    let ?h1 = "h @ [LabelIndexed r]"
    let ?h2 = "?h1 @ [Wide (concat_axis1 T r)]"
    have c: "create_year_df_st h agg y = (Returns (length h), ?h1)"
      using run Inr by simp
    have k: "concat_st ?h1 t (length h) = (Returns (length ?h1), ?h2)"
      using Cons.prems(3,4) by (intro concat_st_run) (simp_all add: nth_append)
    have step: "year_loop_st h agg (y # ys) t = year_loop_st ?h2 agg ys (length ?h1)"
      by (simp add: c k)
    have pure: "year_loop A (y # ys) T = year_loop A ys (concat_axis1 T r)"
      using Inr by simp
    have "\<exists>h'. snd (year_loop_st ?h2 agg ys (length ?h1)) = ?h2 @ h'
            \<and> (case year_loop A ys (concat_axis1 T r) of
                  Inl e \<Rightarrow> fst (year_loop_st ?h2 agg ys (length ?h1)) = Raises e
                | Inr T' \<Rightarrow> \<exists>n < length (?h2 @ h'). fst (year_loop_st ?h2 agg ys (length ?h1)) = Returns n
                                                  \<and> (?h2 @ h') ! n = Wide T')"
      using Cons.prems(1,2) by (intro Cons.IH) (simp_all add: nth_append)
    then obtain h' where h': "snd (year_loop_st ?h2 agg ys (length ?h1)) = ?h2 @ h'"
        "case year_loop A ys (concat_axis1 T r) of
                  Inl e \<Rightarrow> fst (year_loop_st ?h2 agg ys (length ?h1)) = Raises e
                | Inr T' \<Rightarrow> \<exists>n < length (?h2 @ h'). fst (year_loop_st ?h2 agg ys (length ?h1)) = Returns n
                                                  \<and> (?h2 @ h') ! n = Wide T'"
      by blast
    show ?thesis
      unfolding step pure
      using h' by (intro exI [of _ "LabelIndexed r # Wide (concat_axis1 T r) # h'"])
                  (auto split: sum.splits)
  qed
qed

lemma year_table_st_run:
  assumes "agg < length h" "h ! agg = DateIndexed A"
  shows "\<exists>h'. snd (year_table_st h agg sy ey) = h @ h'
            \<and> (case year_table A sy ey of
                  Inl e \<Rightarrow> fst (year_table_st h agg sy ey) = Raises e
                | Inr T \<Rightarrow> \<exists>n < length (h @ h'). fst (year_table_st h agg sy ey) = Returns n
                                                 \<and> (h @ h') ! n = Wide T)"
proof (cases "py_range sy ey")
  case (Inl e)
  then show ?thesis
    by (intro exI [of _ "[Wide empty_table]"]) (simp add: year_table_st_def year_table_def new_table_st_def)
next
  case (Inr ys)
  let ?h1 = "h @ [Wide empty_table]"
  have "\<exists>h'. snd (year_loop_st ?h1 agg ys (length h)) = ?h1 @ h'
            \<and> (case year_loop A ys empty_table of
                  Inl e \<Rightarrow> fst (year_loop_st ?h1 agg ys (length h)) = Raises e
                | Inr T' \<Rightarrow> \<exists>n < length (?h1 @ h'). fst (year_loop_st ?h1 agg ys (length h)) = Returns n
                                                  \<and> (?h1 @ h') ! n = Wide T')"
    using assms by (intro year_loop_st_run) (simp_all add: nth_append)
  then obtain h' where h': "snd (year_loop_st ?h1 agg ys (length h)) = ?h1 @ h'"
      "case year_loop A ys empty_table of
                  Inl e \<Rightarrow> fst (year_loop_st ?h1 agg ys (length h)) = Raises e
                | Inr T' \<Rightarrow> \<exists>n < length (?h1 @ h'). fst (year_loop_st ?h1 agg ys (length h)) = Returns n
                                                  \<and> (?h1 @ h') ! n = Wide T'"
    by blast
  show ?thesis
    using h' Inr
    by (intro exI [of _ "Wide empty_table # h'"])
       (auto simp: year_table_st_def year_table_def new_table_st_def split: sum.splits)
qed

lemma rain_fall_table_st_run:
  assumes "a < length h" "h ! a = Observed S"
  shows "\<exists>h'. snd (rain_fall_table_st fsum h a sy ey) = h @ DateIndexed (resample_M (sum_agg fsum) S) # h'
            \<and> (case year_table (resample_M (sum_agg fsum) S) sy ey of
                  Inl e \<Rightarrow> fst (rain_fall_table_st fsum h a sy ey) = Raises e
                | Inr T \<Rightarrow> \<exists>n. fst (rain_fall_table_st fsum h a sy ey) = Returns n
                               \<and> snd (rain_fall_table_st fsum h a sy ey) ! n = Wide T)"
proof -
  let ?A = "resample_M (sum_agg fsum) S"
  let ?h1 = "h @ [DateIndexed ?A]"
  have r: "resample_st (sum_agg fsum) h a = (Returns (length h), ?h1)"
    using assms by (simp add: resample_st_def)
  have e: "rain_fall_table_st fsum h a sy ey = year_table_st ?h1 (length h) sy ey"
    by (simp add: rain_fall_table_st_def r)
  have "\<exists>h'. snd (year_table_st ?h1 (length h) sy ey) = ?h1 @ h'
            \<and> (case year_table ?A sy ey of
                  Inl e \<Rightarrow> fst (year_table_st ?h1 (length h) sy ey) = Raises e
                | Inr T \<Rightarrow> \<exists>n < length (?h1 @ h'). fst (year_table_st ?h1 (length h) sy ey) = Returns n
                                                 \<and> (?h1 @ h') ! n = Wide T)"
    by (intro year_table_st_run) simp_all
  then obtain h' where h': "snd (year_table_st ?h1 (length h) sy ey) = ?h1 @ h'"
      "case year_table ?A sy ey of
                  Inl e \<Rightarrow> fst (year_table_st ?h1 (length h) sy ey) = Raises e
                | Inr T \<Rightarrow> \<exists>n < length (?h1 @ h'). fst (year_table_st ?h1 (length h) sy ey) = Returns n
                                                 \<and> (?h1 @ h') ! n = Wide T"
    by blast
  show ?thesis
    unfolding e using h' by (intro exI [of _ h']) (auto split: sum.splits)
qed

lemma rainy_days_table_st_run:
  assumes "a < length h" "h ! a = Observed S"
  shows "\<exists>h'. snd (rainy_days_table_st rf h a sy ey)
               = h @ Observed (above rf S) # DateIndexed (resample_M count_agg (above rf S)) # h'
            \<and> (case year_table (resample_M count_agg (above rf S)) sy ey of
                  Inl e \<Rightarrow> fst (rainy_days_table_st rf h a sy ey) = Raises e
                | Inr T \<Rightarrow> \<exists>n. fst (rainy_days_table_st rf h a sy ey) = Returns n
                               \<and> snd (rainy_days_table_st rf h a sy ey) ! n = Wide T)"
proof -
  let ?A = "resample_M count_agg (above rf S)"
  let ?h1 = "h @ [Observed (above rf S)]"
  let ?h2 = "?h1 @ [DateIndexed ?A]"
  have m: "mask_st (is_above rf) h a = (Returns (length h), ?h1)"
    using assms by (simp add: mask_st_def above_def)
  have r: "resample_st count_agg ?h1 (length h) = (Returns (length ?h1), ?h2)"
    by (simp add: resample_st_def)
  have e: "rainy_days_table_st rf h a sy ey = year_table_st ?h2 (length ?h1) sy ey"
    by (simp add: rainy_days_table_st_def m r)
  have "\<exists>h'. snd (year_table_st ?h2 (length ?h1) sy ey) = ?h2 @ h'
            \<and> (case year_table ?A sy ey of
                  Inl e \<Rightarrow> fst (year_table_st ?h2 (length ?h1) sy ey) = Raises e
                | Inr T \<Rightarrow> \<exists>n < length (?h2 @ h'). fst (year_table_st ?h2 (length ?h1) sy ey) = Returns n
                                                 \<and> (?h2 @ h') ! n = Wide T)"
    by (intro year_table_st_run) (simp_all add: nth_append)
  then obtain h' where h': "snd (year_table_st ?h2 (length ?h1) sy ey) = ?h2 @ h'"
      "case year_table ?A sy ey of
                  Inl e \<Rightarrow> fst (year_table_st ?h2 (length ?h1) sy ey) = Raises e
                | Inr T \<Rightarrow> \<exists>n < length (?h2 @ h'). fst (year_table_st ?h2 (length ?h1) sy ey) = Returns n
                                                 \<and> (?h2 @ h') ! n = Wide T"
    by blast
  show ?thesis
    unfolding e using h' by (intro exI [of _ h']) (auto split: sum.splits)
qed

lemma rain_fall_table_st_frame:
  assumes "a < length h" "h ! a = Observed S"
  shows "take (length h) (snd (rain_fall_table_st fsum h a sy ey)) = h"
    and "snd (rain_fall_table_st fsum h a sy ey) ! length h = DateIndexed (resample_M (sum_agg fsum) S)"
    and "a < length (snd (rain_fall_table_st fsum h a sy ey))"
    and "snd (rain_fall_table_st fsum h a sy ey) ! a = Observed S"
    and "case year_table (resample_M (sum_agg fsum) S) sy ey of
           Inl e \<Rightarrow> fst (rain_fall_table_st fsum h a sy ey) = Raises e
         | Inr T \<Rightarrow> \<exists>n. fst (rain_fall_table_st fsum h a sy ey) = Returns n
                        \<and> snd (rain_fall_table_st fsum h a sy ey) ! n = Wide T"
proof -
  obtain h' where h': "snd (rain_fall_table_st fsum h a sy ey)
                       = h @ DateIndexed (resample_M (sum_agg fsum) S) # h'"
    and c: "case year_table (resample_M (sum_agg fsum) S) sy ey of
           Inl e \<Rightarrow> fst (rain_fall_table_st fsum h a sy ey) = Raises e
         | Inr T \<Rightarrow> \<exists>n. fst (rain_fall_table_st fsum h a sy ey) = Returns n
                        \<and> snd (rain_fall_table_st fsum h a sy ey) ! n = Wide T"
    using rain_fall_table_st_run [OF assms, of fsum sy ey] by blast
  show "take (length h) (snd (rain_fall_table_st fsum h a sy ey)) = h" by (simp add: h')
  show "snd (rain_fall_table_st fsum h a sy ey) ! length h = DateIndexed (resample_M (sum_agg fsum) S)"
    by (simp add: h')
  show "a < length (snd (rain_fall_table_st fsum h a sy ey))" using assms(1) by (simp add: h')
  show "snd (rain_fall_table_st fsum h a sy ey) ! a = Observed S"
    using assms by (simp add: h' nth_append)
  show "case year_table (resample_M (sum_agg fsum) S) sy ey of
           Inl e \<Rightarrow> fst (rain_fall_table_st fsum h a sy ey) = Raises e
         | Inr T \<Rightarrow> \<exists>n. fst (rain_fall_table_st fsum h a sy ey) = Returns n
                        \<and> snd (rain_fall_table_st fsum h a sy ey) ! n = Wide T"
    by (rule c)
qed

lemma rainy_days_table_st_frame:
  assumes "a < length h" "h ! a = Observed S"
  shows "take (length h) (snd (rainy_days_table_st rf h a sy ey)) = h"
    and "snd (rainy_days_table_st rf h a sy ey) ! Suc (length h)
         = DateIndexed (resample_M count_agg (above rf S))"
    and "a < length (snd (rainy_days_table_st rf h a sy ey))"
    and "snd (rainy_days_table_st rf h a sy ey) ! a = Observed S"
    and "case year_table (resample_M count_agg (above rf S)) sy ey of
           Inl e \<Rightarrow> fst (rainy_days_table_st rf h a sy ey) = Raises e
         | Inr T \<Rightarrow> \<exists>n. fst (rainy_days_table_st rf h a sy ey) = Returns n
                        \<and> snd (rainy_days_table_st rf h a sy ey) ! n = Wide T"
proof -
  obtain h' where h': "snd (rainy_days_table_st rf h a sy ey)
               = h @ Observed (above rf S) # DateIndexed (resample_M count_agg (above rf S)) # h'"
    and c: "case year_table (resample_M count_agg (above rf S)) sy ey of
           Inl e \<Rightarrow> fst (rainy_days_table_st rf h a sy ey) = Raises e
         | Inr T \<Rightarrow> \<exists>n. fst (rainy_days_table_st rf h a sy ey) = Returns n
                        \<and> snd (rainy_days_table_st rf h a sy ey) ! n = Wide T"
    using rainy_days_table_st_run [OF assms, of rf sy ey] by blast
  show "take (length h) (snd (rainy_days_table_st rf h a sy ey)) = h" by (simp add: h')
  show "snd (rainy_days_table_st rf h a sy ey) ! Suc (length h)
         = DateIndexed (resample_M count_agg (above rf S))"
    by (simp add: h' nth_append)
  show "a < length (snd (rainy_days_table_st rf h a sy ey))" using assms(1) by (simp add: h')
  show "snd (rainy_days_table_st rf h a sy ey) ! a = Observed S"
    using assms by (simp add: h' nth_append)
  show "case year_table (resample_M count_agg (above rf S)) sy ey of
           Inl e \<Rightarrow> fst (rainy_days_table_st rf h a sy ey) = Raises e
         | Inr T \<Rightarrow> \<exists>n. fst (rainy_days_table_st rf h a sy ey) = Returns n
                        \<and> snd (rainy_days_table_st rf h a sy ey) ! n = Wide T"
    by (rule c)
qed

section \<open>Claims\<close>

text \<open>
  C1, as the code has it. On a monthly table that \<^verbatim>\<open>resample('M')\<close> produced,
  \<^verbatim>\<open>create_year_df\<close> returns twelve positions exactly when the table has an entry for
  each of the twelve months of the year: the positions then carry the twelve month labels
  in order, position i holds the entry of month i+1, and the column is labelled with the
  year. When a month of the year has no entry, the call raises \<^verbatim>\<open>ValueError\<close>; no
  missing-value marker is ever filled in.
\<close>

theorem create_year_df_resample:
  "(full_year (resample_M agg df) y \<longrightarrow>
      (\<exists>r. create_year_df (resample_M agg df) y = Inr r
          \<and> map fst (rows r) = month_labels
          \<and> map (Some \<circ> snd) (rows r) = map (\<lambda>m. entry (resample_M agg df) (y, m)) [1..<13]
          \<and> columns r = ColInt y))
   \<and> (\<not> full_year (resample_M agg df) y \<longrightarrow>
        create_year_df (resample_M agg df) y = Inl ValueError)"
proof (intro conjI impI)
  assume full: "full_year (resample_M agg df) y"
  let ?vs = "map (\<lambda>m. agg (bucket (rows df) (12 * y + int m - 1))) [1..<13]"
  let ?r = "\<lparr>rows = zip month_labels ?vs, columns = ColInt y\<rparr>"
  have len: "length ?vs = length month_labels" by simp
  have "create_year_df (resample_M agg df) y = Inr ?r"
    using full by (rule create_year_df_full)
  moreover have "map fst (rows ?r) = month_labels"
    using len by simp
  moreover have "map (Some \<circ> snd) (rows ?r) = map (\<lambda>m. entry (resample_M agg df) (y, m)) [1..<13]"
  proof -
    have "map snd (zip month_labels ?vs) = ?vs"
      using len by (simp only: map_snd_zip)
    then have "map (Some \<circ> snd) (rows ?r) = map Some ?vs"
      by (simp del: map_map add: map_map [symmetric])
    also have "\<dots> = map (\<lambda>m. entry (resample_M agg df) (y, m)) [1..<13]"
      by (simp only: full_year_entries [OF full] map_map comp_def)
    finally show ?thesis .
  qed
  moreover have "columns ?r = ColInt y" by simp
  ultimately show "\<exists>r. create_year_df (resample_M agg df) y = Inr r
          \<and> map fst (rows r) = month_labels
          \<and> map (Some \<circ> snd) (rows r) = map (\<lambda>m. entry (resample_M agg df) (y, m)) [1..<13]
          \<and> columns r = ColInt y"
    by blast
next
  assume "\<not> full_year (resample_M agg df) y"
  then show "create_year_df (resample_M agg df) y = Inl ValueError"
    by (rule create_year_df_not_full)
qed

lemma full_year_jan_dec_2021: "full_year (resample_M (sum_agg exact_sum) jan_dec_2021) 2021"
  by code_simp

lemma not_full_year_jan_mar_2021: "\<not> full_year (resample_M (sum_agg exact_sum) jan_mar_2021) 2021"
  by code_simp

theorem create_year_df_resample_witness:
  "full_year (resample_M (sum_agg exact_sum) jan_dec_2021) 2021
   \<and> (\<exists>r. create_year_df (resample_M (sum_agg exact_sum) jan_dec_2021) 2021 = Inr r
          \<and> map fst (rows r) = month_labels
          \<and> map (Some \<circ> snd) (rows r)
              = map (\<lambda>m. entry (resample_M (sum_agg exact_sum) jan_dec_2021) (2021, m)) [1..<13]
          \<and> columns r = ColInt 2021)
   \<and> \<not> full_year (resample_M (sum_agg exact_sum) jan_mar_2021) 2021
   \<and> create_year_df (resample_M (sum_agg exact_sum) jan_mar_2021) 2021 = Inl ValueError"
  using create_year_df_resample [of "sum_agg exact_sum" jan_dec_2021 2021]
        create_year_df_resample [of "sum_agg exact_sum" jan_mar_2021 2021]
        full_year_jan_dec_2021 not_full_year_jan_mar_2021
  by blast

text \<open>
  C1 as the specification states it fails: a year with three months of data gives no
  twelve positions, the call raises.
\<close>

theorem create_year_df_sparse_counterexample:
  "rows (resample_M (sum_agg exact_sum) jan_mar_2021)
     = [(Date 2021 1 31, 1), (Date 2021 2 28, 4), (Date 2021 3 31, 2)]
   \<and> create_year_df (resample_M (sum_agg exact_sum) jan_mar_2021) 2021 = Inl ValueError"
  by code_simp

text \<open>
  C5. For a series whose timestamps are calendar dates, the monthly sums
  (\<^verbatim>\<open>df.resample('M').sum()\<close>) have an entry for the month of every row; a month between
  the first and the last month of the series that no row lies in has the entry 0; a month
  before the first or after the last month of the series has no entry.
\<close>

theorem monthly_sum_entries:
  assumes "list_all (valid_month \<circ> fst) (rows df)"
  shows "(\<forall>r\<in>set (rows df). entry (resample_M (sum_agg fsum) df) (year (fst r), month (fst r)) \<noteq> None)
       \<and> (\<forall>y m. 1 \<le> m \<and> m \<le> 12 \<and> in_span (rows df) y m
                \<and> filter (\<lambda>r. year (fst r) = y \<and> month (fst r) = m) (rows df) = []
             \<longrightarrow> entry (resample_M (sum_agg fsum) df) (y, m) = Some 0)
       \<and> (\<forall>y m. 1 \<le> m \<and> m \<le> 12 \<and> \<not> in_span (rows df) y m
             \<longrightarrow> entry (resample_M (sum_agg fsum) df) (y, m) = None)"
proof (intro conjI ballI allI impI)
  fix r assume r: "r \<in> set (rows df)"
  then have "valid_month (fst r)" using assms by (simp add: list_all_iff)
  then have "1 \<le> month (fst r)" "month (fst r) \<le> 12" by (simp_all add: valid_month_def)
  then show "entry (resample_M (sum_agg fsum) df) (year (fst r), month (fst r)) \<noteq> None"
    using in_span_row [OF r] by (simp add: entry_resample_span)
next
  fix y m
  assume h: "1 \<le> m \<and> m \<le> 12 \<and> in_span (rows df) y m
             \<and> filter (\<lambda>r. year (fst r) = y \<and> month (fst r) = m) (rows df) = []"
  then have "bucket (rows df) (12 * y + int m - 1) = []"
    using bucket_month [OF assms, of m y] by simp
  then show "entry (resample_M (sum_agg fsum) df) (y, m) = Some 0"
    using h by (simp add: entry_resample_span sum_agg_def)
next
  fix y m
  assume "1 \<le> m \<and> m \<le> 12 \<and> \<not> in_span (rows df) y m"
  then show "entry (resample_M (sum_agg fsum) df) (y, m) = None"
    by (simp add: entry_resample_span)
qed

lemma valid_jan_mar_gap: "list_all (valid_month \<circ> fst) (rows jan_mar_gap)"
  by (simp add: jan_mar_gap_def series_def valid_month_def)

lemma in_span_jan_mar_gap:
  "in_span (rows jan_mar_gap) 2022 2" "\<not> in_span (rows jan_mar_gap) 2022 4"
  by (simp_all add: in_span_def jan_mar_gap_def series_def lo_month_def hi_month_def month_index_def)

theorem monthly_sum_entries_witness:
  "list_all (valid_month \<circ> fst) (rows jan_mar_gap)
   \<and> (Date 2022 3 10, Some 2) \<in> set (rows jan_mar_gap)
   \<and> entry (resample_M (sum_agg exact_sum) jan_mar_gap) (2022, 3) \<noteq> None
   \<and> in_span (rows jan_mar_gap) 2022 2
   \<and> filter (\<lambda>r. year (fst r) = 2022 \<and> month (fst r) = 2) (rows jan_mar_gap) = []
   \<and> entry (resample_M (sum_agg exact_sum) jan_mar_gap) (2022, 2) = Some 0
   \<and> \<not> in_span (rows jan_mar_gap) 2022 4
   \<and> entry (resample_M (sum_agg exact_sum) jan_mar_gap) (2022, 4) = None"
proof -
  note th = monthly_sum_entries [where fsum = exact_sum, OF valid_jan_mar_gap]
  have r: "(Date 2022 3 10, Some 2) \<in> set (rows jan_mar_gap)"
    by (simp add: jan_mar_gap_def series_def)
  have e: "filter (\<lambda>r. year (fst r) = 2022 \<and> month (fst r) = 2) (rows jan_mar_gap) = []"
    by (simp add: jan_mar_gap_def series_def)
  have "entry (resample_M (sum_agg exact_sum) jan_mar_gap) (2022, 3) \<noteq> None"
    using th r by fastforce
  moreover have "entry (resample_M (sum_agg exact_sum) jan_mar_gap) (2022, 2) = Some 0"
    using th in_span_jan_mar_gap(1) e by simp
  moreover have "entry (resample_M (sum_agg exact_sum) jan_mar_gap) (2022, 4) = None"
    using th in_span_jan_mar_gap(2) by simp
  ultimately show ?thesis
    using valid_jan_mar_gap r e in_span_jan_mar_gap by simp
qed

text \<open>
  C2, as the code has it. The rainy days are counted on the rows that are left after the
  rows at or below the threshold have been dropped
  (\<^verbatim>\<open>df[df[...] > rf].resample('M').count()\<close>). So a month has a count exactly when it
  lies between the first and the last month that have a value above the threshold, and
  the count is then the number of its rows above the threshold, 0 when it has none. A
  month before the first or after the last month with a value above the threshold has no
  count, wherever it lies in the series.
\<close>

theorem count_above_entries:
  assumes "list_all (valid_month \<circ> fst) (rows df)" "1 \<le> m" "m \<le> 12"
  shows "entry (resample_M count_agg (above t df)) (y, m)
         = (if in_span (rows (above t df)) y m then Some (days_above t df y m) else None)"
  using assms by (simp add: entry_resample_span count_bucket_above)

lemma valid_jan_mar_2022: "list_all (valid_month \<circ> fst) (rows jan_mar_2022)"
  by (simp add: jan_mar_2022_def series_def valid_month_def)

theorem count_above_entries_witness:
  "list_all (valid_month \<circ> fst) (rows jan_mar_2022) \<and> (1::nat) \<le> 2 \<and> (2::nat) \<le> 12
   \<and> in_span (rows (above 0 jan_mar_2022)) 2022 2
   \<and> days_above 0 jan_mar_2022 2022 2 = 0
   \<and> entry (resample_M count_agg (above 0 jan_mar_2022)) (2022, 2) = Some 0"
proof -
  have s: "in_span (rows (above 0 jan_mar_2022)) 2022 2"
    by (simp add: in_span_def jan_mar_2022_def series_def above_def is_above_def
          lo_month_def hi_month_def month_index_def)
  have d: "days_above 0 jan_mar_2022 2022 2 = 0"
    by (simp add: days_above_def jan_mar_2022_def series_def is_above_def)
  show ?thesis
    using count_above_entries [OF valid_jan_mar_2022, of 2 0 2022] s d valid_jan_mar_2022
    by simp
qed

text \<open>
  C2 as the specification states it fails on its own example: February 2022 lies in the
  span of the series and has no value above 0, yet it has no count, because the only row
  above 0 is in January.
\<close>

theorem count_above_example_counterexample:
  "rows (resample_M count_agg (above 0 spec_example)) = [(Date 2022 1 31, 1)]
   \<and> entry (resample_M count_agg (above 0 spec_example)) (2022, 2) = None
   \<and> entry (resample_M (sum_agg exact_sum) spec_example) (2022, 2) = Some 0"
  by code_simp

text \<open>
  C6, as the code has it. For a loaded series the year table of a chart is assembled
  exactly when the monthly table has all twelve entries for every year from the first
  year of the series up to, and not including, its last year; otherwise the assembly
  raises \<^verbatim>\<open>ValueError\<close>. When it is assembled, its columns are these years in
  ascending order, each column holding the twelve monthly entries of its year, and the
  last year contributes no column. For the monthly table of a series whose timestamps are
  calendar dates, sums or counts of all its rows, the years are complete exactly when the
  series lies within one year or its first month is a January.
\<close>

theorem year_table_columns:
  assumes "rows df \<noteq> []"
  shows "year_table (resample_M agg df') (year_min (rows df)) (year_max (rows df))
         = (if list_all (full_year (resample_M agg df')) [first_year (rows df) .. last_year (rows df) - 1]
            then Inr \<lparr>t_index = (if first_year (rows df) < last_year (rows df) then month_labels else []),
                      t_columns = map (year_column (resample_M agg df'))
                                    [first_year (rows df) .. last_year (rows df) - 1]\<rparr>
            else Inl ValueError)
       \<and> (\<forall>t. year_table (resample_M agg df') (year_min (rows df)) (year_max (rows df)) = Inr t
             \<longrightarrow> map fst (t_columns t) = map ColInt [first_year (rows df) .. last_year (rows df) - 1]
                 \<and> ColInt (last_year (rows df)) \<notin> set (map fst (t_columns t)))
       \<and> (list_all (valid_month \<circ> fst) (rows df) \<longrightarrow>
            (list_all (full_year (resample_M agg df)) [first_year (rows df) .. last_year (rows df) - 1]
             \<longleftrightarrow> first_year (rows df) = last_year (rows df)
                 \<or> lo_month (rows df) = 12 * first_year (rows df)))"
proof (intro conjI allI impI)
  let ?ys = "[first_year (rows df) .. last_year (rows df) - 1]"
  show "year_table (resample_M agg df') (year_min (rows df)) (year_max (rows df))
         = (if list_all (full_year (resample_M agg df')) ?ys
            then Inr \<lparr>t_index = (if first_year (rows df) < last_year (rows df) then month_labels else []),
                      t_columns = map (year_column (resample_M agg df')) ?ys\<rparr>
            else Inl ValueError)"
    using assms by (rule year_table_resample)
  fix t
  assume "year_table (resample_M agg df') (year_min (rows df)) (year_max (rows df)) = Inr t"
  then have cols: "t_columns t = map (year_column (resample_M agg df')) ?ys"
    using assms by (intro year_table_cells)
  then show "map fst (t_columns t) = map ColInt ?ys"
    by (simp add: year_column_def comp_def)
  then show "ColInt (last_year (rows df)) \<notin> set (map fst (t_columns t))"
    by auto
next
  assume "list_all (valid_month \<circ> fst) (rows df)"
  then show "list_all (full_year (resample_M agg df)) [first_year (rows df) .. last_year (rows df) - 1]
             \<longleftrightarrow> first_year (rows df) = last_year (rows df)
                 \<or> lo_month (rows df) = 12 * first_year (rows df)"
    using assms by (intro full_years_span) simp_all
qed

lemma year_table_two_years:
  "year_table (resample_M (sum_agg exact_sum) two_years) (year_min (rows two_years)) (year_max (rows two_years))
   = Inr table_2020"
  by code_simp

theorem year_table_columns_witness:
  "rows two_years \<noteq> [] \<and> list_all (valid_month \<circ> fst) (rows two_years)
   \<and> first_year (rows two_years) = 2020 \<and> last_year (rows two_years) = 2021
   \<and> lo_month (rows two_years) = 12 * 2020
   \<and> list_all (full_year (resample_M (sum_agg exact_sum) two_years)) [2020 .. 2021 - 1]
   \<and> year_table (resample_M (sum_agg exact_sum) two_years) (year_min (rows two_years)) (year_max (rows two_years))
       = Inr table_2020
   \<and> map fst (t_columns table_2020) = map ColInt [2020 .. 2021 - 1]
   \<and> ColInt 2021 \<notin> set (map fst (t_columns table_2020))
   \<and> rows march_2020 \<noteq> [] \<and> list_all (valid_month \<circ> fst) (rows march_2020)
   \<and> first_year (rows march_2020) = 2020 \<and> last_year (rows march_2020) = 2021
   \<and> lo_month (rows march_2020) = 12 * 2020 + 2
   \<and> \<not> list_all (full_year (resample_M (sum_agg exact_sum) march_2020)) [2020 .. 2021 - 1]
   \<and> year_table (resample_M (sum_agg exact_sum) march_2020) (year_min (rows march_2020)) (year_max (rows march_2020))
       = Inl ValueError"
proof -
  have ne: "rows two_years \<noteq> []" and v: "list_all (valid_month \<circ> fst) (rows two_years)"
    by (simp_all add: two_years_def series_def valid_month_def)
  have ys: "first_year (rows two_years) = 2020" "last_year (rows two_years) = 2021"
    by (simp_all add: first_year_def last_year_def two_years_def series_def)
  have lo: "lo_month (rows two_years) = 12 * 2020"
    by (simp add: lo_month_def two_years_def series_def month_index_def)
  note th = year_table_columns [OF ne, of "sum_agg exact_sum" two_years]
  have full: "list_all (full_year (resample_M (sum_agg exact_sum) two_years)) [2020 .. 2021 - 1]"
    using th v lo unfolding ys by blast
  have a: "map fst (t_columns table_2020) = map ColInt [2020 .. 2021 - 1]"
    and b: "ColInt 2021 \<notin> set (map fst (t_columns table_2020))"
    using th year_table_two_years unfolding ys by blast+
  have ne': "rows march_2020 \<noteq> []" and v': "list_all (valid_month \<circ> fst) (rows march_2020)"
    by (simp_all add: march_2020_def series_def valid_month_def)
  have ys': "first_year (rows march_2020) = 2020" "last_year (rows march_2020) = 2021"
    by (simp_all add: first_year_def last_year_def march_2020_def series_def)
  have lo': "lo_month (rows march_2020) = 12 * 2020 + 2"
    by (simp add: lo_month_def march_2020_def series_def month_index_def)
  note th' = year_table_columns [OF ne', of "sum_agg exact_sum" march_2020]
  have nfull: "\<not> list_all (full_year (resample_M (sum_agg exact_sum) march_2020)) [2020 .. 2021 - 1]"
    using th' v' lo' unfolding ys' by simp
  have err: "year_table (resample_M (sum_agg exact_sum) march_2020) (year_min (rows march_2020))
               (year_max (rows march_2020)) = Inl ValueError"
    using th' nfull unfolding ys' by simp
  show ?thesis
    using ne v ys lo full year_table_two_years a b ne' v' ys' lo' nfull err
    by (intro conjI)
qed

text \<open>
  C6 as the specification states it fails: the series that is loaded from a file whose
  first row is in March 2020 and whose last row is in December 2021 has no year table,
  for the sums and for the rainy days alike, because 2020 has ten monthly entries.
\<close>

theorem year_table_march_counterexample:
  "fst (read_csv_data example_dates (one_file hiyoshi march_file) hiyoshi (pandas_defaults :: real world))
     = Inr (DatetimeFrame march_2020)
   \<and> year_table (resample_M (sum_agg exact_sum) march_2020)
       (year_min (rows march_2020)) (year_max (rows march_2020)) = Inl ValueError
   \<and> year_table (resample_M count_agg (above 0 march_2020))
       (year_min (rows march_2020)) (year_max (rows march_2020)) = Inl ValueError"
  by code_simp

text \<open>
  C3, as the code has it. For a file whose first fields all parse as dates,
  \<^verbatim>\<open>read_csv_data\<close> returns the rows in the order of the file, the value column labelled
  with the fixed label; the result is in chronological order exactly when the file is.
  Nothing in the loader sorts.
\<close>

theorem read_csv_data_file_order:
  assumes "fs fn = Some rs" "rs \<noteq> []" "those (map (to_datetime \<circ> fst) rs) = Some ds"
  shows "\<exists>df. fst (read_csv_data to_datetime fs fn w) = Inr (DatetimeFrame df)
            \<and> map fst (rows df) = ds \<and> map snd (rows df) = map snd rs
            \<and> columns df = ColStr precipitation
            \<and> (sorted_wrt date_le (map fst (rows df)) \<longleftrightarrow> sorted_wrt date_le ds)"
proof -
  have len: "length ds = length (map snd rs)"
    using those_length [OF assms(3)] by simp
  obtain r rs' where rs: "rs = r # rs'" using assms(2) by (cases rs) auto
  have "fst (read_csv_data to_datetime fs fn w)
        = Inr (DatetimeFrame \<lparr>rows = zip ds (map snd rs), columns = ColStr precipitation\<rparr>)"
    using assms(1,3) unfolding rs by (simp add: read_csv_data_def read_csv_def)
  moreover have "map fst (zip ds (map snd rs)) = ds" "map snd (zip ds (map snd rs)) = map snd rs"
    using len by (simp_all only: map_fst_zip map_snd_zip)
  ultimately show ?thesis by simp
qed

lemma parsed_unsorted_file:
  "those (map (example_dates \<circ> fst) unsorted_file)
   = Some [Date 2022 2 10, Date 2022 1 1, Date 2022 1 15]"
  by (simp add: unsorted_file_def example_dates_def)

theorem read_csv_data_file_order_witness:
  "one_file hiyoshi unsorted_file hiyoshi = Some unsorted_file \<and> unsorted_file \<noteq> []
   \<and> those (map (example_dates \<circ> fst) unsorted_file)
       = Some [Date 2022 2 10, Date 2022 1 1, Date 2022 1 15]
   \<and> (\<exists>df. fst (read_csv_data example_dates (one_file hiyoshi unsorted_file) hiyoshi pandas_defaults)
              = Inr (DatetimeFrame df)
          \<and> map fst (rows df) = [Date 2022 2 10, Date 2022 1 1, Date 2022 1 15]
          \<and> map snd (rows df) = map snd unsorted_file
          \<and> columns df = ColStr precipitation
          \<and> (sorted_wrt date_le (map fst (rows df))
               \<longleftrightarrow> sorted_wrt date_le [Date 2022 2 10, Date 2022 1 1, Date 2022 1 15]))"
proof -
  have f: "one_file hiyoshi unsorted_file hiyoshi = Some unsorted_file"
    by (simp add: one_file_def)
  have ne: "unsorted_file \<noteq> []"
    by (simp add: unsorted_file_def)
  note th = read_csv_data_file_order
              [where fs = "one_file hiyoshi unsorted_file" and fn = hiyoshi and w = pandas_defaults,
               OF f ne parsed_unsorted_file]
  show ?thesis
    by (rule conjI [OF f conjI [OF ne conjI [OF parsed_unsorted_file th]]])
qed

text \<open>
  C3 as the specification states it fails: a file whose rows are not in chronological
  order is loaded in the order of the file.
\<close>

theorem read_csv_data_unsorted_counterexample:
  "fst (read_csv_data example_dates (one_file hiyoshi unsorted_file) hiyoshi pandas_defaults)
     = Inr (DatetimeFrame
         (series [(Date 2022 2 10, Some 0), (Date 2022 1 1, Some 0), (Date 2022 1 15, Some 5)]))
   \<and> \<not> sorted_wrt date_le [Date 2022 2 10, Date 2022 1 1, Date 2022 1 15]"
  by (simp add: read_csv_data_def read_csv_def one_file_def unsorted_file_def example_dates_def
        series_def date_le_def)

text \<open>
  C7, as the code has it. \<^verbatim>\<open>read_csv_data\<close> leaves the font family and what has been
  drawn as they are. When the file is loaded it sets the two display options of pandas
  (500 rows, precision 1); when \<^verbatim>\<open>pd.read_csv\<close> raises, the state is unchanged.
\<close>

theorem read_csv_data_state:
  "font_family (snd (read_csv_data td fs fn w)) = font_family w
   \<and> events (snd (read_csv_data td fs fn w)) = events w
   \<and> (case fst (read_csv_data td fs fn w) of
        Inl e \<Rightarrow> snd (read_csv_data td fs fn w) = w
      | Inr df \<Rightarrow> display_max_rows (snd (read_csv_data td fs fn w)) = 500
                  \<and> display_precision (snd (read_csv_data td fs fn w)) = 1)"
  by (simp add: read_csv_data_def split: sum.splits)

text \<open>
  C7 as the specification states it fails: loading a file from the default options of
  pandas (60 rows, precision 6) changes the process-wide display options.
\<close>

theorem read_csv_data_state_counterexample:
  "snd (read_csv_data example_dates (one_file hiyoshi unsorted_file) hiyoshi pandas_defaults)
     = pandas_defaults\<lparr>display_max_rows := 500, display_precision := 1\<rparr>
   \<and> snd (read_csv_data example_dates (one_file hiyoshi unsorted_file) hiyoshi pandas_defaults)
     \<noteq> pandas_defaults"
  by (simp add: read_csv_data_def read_csv_def one_file_def unsorted_file_def example_dates_def
        pandas_defaults_def)

text \<open>
  C9, as the code has it. \<^verbatim>\<open>main\<close> takes no path: it loads the file at the fixed path
  \<^verbatim>\<open>./data/hiyoshi.csv\<close>, so a run depends on the file system only through the file at
  that path. (\<^verbatim>\<open>read_csv_data\<close> itself loads the path it is given.)
\<close>

theorem main_reads_hiyoshi:
  assumes "fs hiyoshi = fs' hiyoshi"
  shows "main td fsum fs g w = main td fsum fs' g w"
  using read_csv_cong [where fs = fs and fs' = fs' and fn = hiyoshi and td = td] assms
  by (simp add: main_def read_csv_data_def)

theorem main_reads_hiyoshi_witness:
  "one_file hiyoshi unsorted_file hiyoshi = two_files hiyoshi
   \<and> one_file hiyoshi unsorted_file other_csv \<noteq> two_files other_csv
   \<and> main example_dates exact_sum (one_file hiyoshi unsorted_file) ''px'' pandas_defaults
       = main example_dates exact_sum two_files ''px'' pandas_defaults"
proof -
  have a: "one_file hiyoshi unsorted_file hiyoshi = two_files hiyoshi"
    by (simp add: one_file_def two_files_def)
  have b: "one_file hiyoshi unsorted_file other_csv \<noteq> two_files other_csv"
    by (simp add: one_file_def two_files_def hiyoshi_def other_csv_def)
  show ?thesis
    using main_reads_hiyoshi
            [where fs = "one_file hiyoshi unsorted_file" and fs' = two_files
               and td = example_dates and fsum = exact_sum and g = "''px''"
               and w = pandas_defaults, OF a]
          a b
    by (intro conjI)
qed

text \<open>
  C9 as the specification states it fails: with the data at another path, which the
  loader can load, a run in either mode ends with \<^verbatim>\<open>FileNotFoundError\<close>, because
  \<^verbatim>\<open>main\<close> looks at the fixed path only.
\<close>

theorem main_path_counterexample:
  "fst (read_csv_data example_dates (one_file other_csv march_file) other_csv pandas_defaults)
     = Inr (DatetimeFrame (series [(Date 2020 3 1, Some 1), (Date 2021 12 31, Some 2)]))
   \<and> fst (main example_dates exact_sum (one_file other_csv march_file) ''plt'' pandas_defaults)
     = Inl FileNotFoundError
   \<and> fst (main example_dates exact_sum (one_file other_csv march_file) ''px'' pandas_defaults)
     = Inl FileNotFoundError"
  by (simp add: main_def read_csv_data_def read_csv_def one_file_def march_file_def example_dates_def
        series_def hiyoshi_def other_csv_def)








text \<open>
  C8. On the store, with the series an object of it: the statements that compute the year
  table of the monthly sums leave every object that existed before as it was, the series
  among them; the monthly aggregate they put into the store is the table of monthly sums of
  the series and is still that after the loop has run over it; and they return the year
  table of the function \<open>year_table\<close>, or raise what it raises. Run a second time, on
  the store the first run left, they leave the objects of the first run as they were, its
  aggregate and its year table among them, and compute the same aggregate and the same
  year table again. The same holds for the rainy days, counted on the selected rows. A
  second run of \<^verbatim>\<open>main\<close> from the state the first run leaves has the same result,
  leaves the same display options and font family, and draws the same charts again.
\<close>

theorem aggregation_pure:
  assumes "a < length h" "h ! a = Observed S"
      and "b < length k" "k ! b = Observed S'"
  shows "(let h1 = snd (rain_fall_table_st fsum h a sy ey);
              h2 = snd (rain_fall_table_st fsum h1 a sy ey)
          in take (length h) h1 = h
           \<and> h1 ! length h = DateIndexed (resample_M (sum_agg fsum) S)
           \<and> (case year_table (resample_M (sum_agg fsum) S) sy ey of
                Inl e \<Rightarrow> fst (rain_fall_table_st fsum h a sy ey) = Raises e
                         \<and> fst (rain_fall_table_st fsum h1 a sy ey) = Raises e
              | Inr T \<Rightarrow> (\<exists>n. fst (rain_fall_table_st fsum h a sy ey) = Returns n \<and> h1 ! n = Wide T)
                         \<and> (\<exists>n. fst (rain_fall_table_st fsum h1 a sy ey) = Returns n \<and> h2 ! n = Wide T))
           \<and> take (length h1) h2 = h1
           \<and> h2 ! length h1 = DateIndexed (resample_M (sum_agg fsum) S))
       \<and> (let k1 = snd (rainy_days_table_st rf k b sy ey);
              k2 = snd (rainy_days_table_st rf k1 b sy ey)
          in take (length k) k1 = k
           \<and> k1 ! Suc (length k) = DateIndexed (resample_M count_agg (above rf S'))
           \<and> (case year_table (resample_M count_agg (above rf S')) sy ey of
                Inl e \<Rightarrow> fst (rainy_days_table_st rf k b sy ey) = Raises e
                         \<and> fst (rainy_days_table_st rf k1 b sy ey) = Raises e
              | Inr T \<Rightarrow> (\<exists>n. fst (rainy_days_table_st rf k b sy ey) = Returns n \<and> k1 ! n = Wide T)
                         \<and> (\<exists>n. fst (rainy_days_table_st rf k1 b sy ey) = Returns n \<and> k2 ! n = Wide T))
           \<and> take (length k1) k2 = k1
           \<and> k2 ! Suc (length k1) = DateIndexed (resample_M count_agg (above rf S')))
       \<and> fst (main td fsum fs g (snd (main td fsum fs g w))) = fst (main td fsum fs g w)
       \<and> display_max_rows (snd (main td fsum fs g (snd (main td fsum fs g w))))
           = display_max_rows (snd (main td fsum fs g w))
       \<and> display_precision (snd (main td fsum fs g (snd (main td fsum fs g w))))
           = display_precision (snd (main td fsum fs g w))
       \<and> font_family (snd (main td fsum fs g (snd (main td fsum fs g w))))
           = font_family (snd (main td fsum fs g w))
       \<and> events (snd (main td fsum fs g (snd (main td fsum fs g w))))
           = events (snd (main td fsum fs g w)) @ drop (length (events w)) (events (snd (main td fsum fs g w)))"
proof (intro conjI)
  let ?h1 = "snd (rain_fall_table_st fsum h a sy ey)"
  note f1 = rain_fall_table_st_frame [OF assms(1,2), of fsum sy ey]
  note f2 = rain_fall_table_st_frame [OF f1(3,4), of fsum sy ey]
  show "let h1 = snd (rain_fall_table_st fsum h a sy ey);
              h2 = snd (rain_fall_table_st fsum h1 a sy ey)
          in take (length h) h1 = h
           \<and> h1 ! length h = DateIndexed (resample_M (sum_agg fsum) S)
           \<and> (case year_table (resample_M (sum_agg fsum) S) sy ey of
                Inl e \<Rightarrow> fst (rain_fall_table_st fsum h a sy ey) = Raises e
                         \<and> fst (rain_fall_table_st fsum h1 a sy ey) = Raises e
              | Inr T \<Rightarrow> (\<exists>n. fst (rain_fall_table_st fsum h a sy ey) = Returns n \<and> h1 ! n = Wide T)
                         \<and> (\<exists>n. fst (rain_fall_table_st fsum h1 a sy ey) = Returns n \<and> h2 ! n = Wide T))
           \<and> take (length h1) h2 = h1
           \<and> h2 ! length h1 = DateIndexed (resample_M (sum_agg fsum) S)"
    unfolding Let_def
    using f1(1,2,5) f2(1,2,5) by (simp split: sum.splits)
next
  let ?k1 = "snd (rainy_days_table_st rf k b sy ey)"
  note f1 = rainy_days_table_st_frame [OF assms(3,4), of rf sy ey]
  note f2 = rainy_days_table_st_frame [OF f1(3,4), of rf sy ey]
  show "let k1 = snd (rainy_days_table_st rf k b sy ey);
              k2 = snd (rainy_days_table_st rf k1 b sy ey)
          in take (length k) k1 = k
           \<and> k1 ! Suc (length k) = DateIndexed (resample_M count_agg (above rf S'))
           \<and> (case year_table (resample_M count_agg (above rf S')) sy ey of
                Inl e \<Rightarrow> fst (rainy_days_table_st rf k b sy ey) = Raises e
                         \<and> fst (rainy_days_table_st rf k1 b sy ey) = Raises e
              | Inr T \<Rightarrow> (\<exists>n. fst (rainy_days_table_st rf k b sy ey) = Returns n \<and> k1 ! n = Wide T)
                         \<and> (\<exists>n. fst (rainy_days_table_st rf k1 b sy ey) = Returns n \<and> k2 ! n = Wide T))
           \<and> take (length k1) k2 = k1
           \<and> k2 ! Suc (length k1) = DateIndexed (resample_M count_agg (above rf S'))"
    unfolding Let_def
    using f1(1,2,5) f2(1,2,5) by (simp split: sum.splits)
qed (simp_all add: main_world effect_def)

lemma sums_two_years:
  "year_table (resample_M (sum_agg exact_sum) two_years) (Some 2020) (Some 2021) = Inr table_2020"
  by code_simp

lemma days_two_years:
  "year_table (resample_M count_agg (above 0 two_years)) (Some 2020) (Some 2021) = Inr days_table_2020"
  by code_simp

theorem aggregation_pure_witness:
  "(0::nat) < length (observed_store :: (real option, real) store)
   \<and> (observed_store :: (real option, real) store) ! 0 = Observed two_years
   \<and> (0::nat) < length (observed_store :: (real option, nat) store)
   \<and> (observed_store :: (real option, nat) store) ! 0 = Observed two_years
   \<and> year_table (resample_M (sum_agg exact_sum) two_years) (Some 2020) (Some 2021) = Inr table_2020
   \<and> year_table (resample_M count_agg (above 0 two_years)) (Some 2020) (Some 2021) = Inr days_table_2020
   \<and> (let h1 = snd (rain_fall_table_st exact_sum observed_store 0 (Some 2020) (Some 2021));
          h2 = snd (rain_fall_table_st exact_sum h1 0 (Some 2020) (Some 2021))
      in take (length (observed_store :: (real option, real) store)) h1 = observed_store
       \<and> h1 ! length (observed_store :: (real option, real) store)
           = DateIndexed (resample_M (sum_agg exact_sum) two_years)
       \<and> (\<exists>n. fst (rain_fall_table_st exact_sum observed_store 0 (Some 2020) (Some 2021)) = Returns n
              \<and> h1 ! n = Wide table_2020)
       \<and> (\<exists>n. fst (rain_fall_table_st exact_sum h1 0 (Some 2020) (Some 2021)) = Returns n
              \<and> h2 ! n = Wide table_2020)
       \<and> take (length h1) h2 = h1
       \<and> h2 ! length h1 = DateIndexed (resample_M (sum_agg exact_sum) two_years))
   \<and> (let k1 = snd (rainy_days_table_st 0 observed_store 0 (Some 2020) (Some 2021));
          k2 = snd (rainy_days_table_st 0 k1 0 (Some 2020) (Some 2021))
      in take (length (observed_store :: (real option, nat) store)) k1 = observed_store
       \<and> k1 ! Suc (length (observed_store :: (real option, nat) store))
           = DateIndexed (resample_M count_agg (above 0 two_years))
       \<and> (\<exists>n. fst (rainy_days_table_st 0 observed_store 0 (Some 2020) (Some 2021)) = Returns n
              \<and> k1 ! n = Wide days_table_2020)
       \<and> (\<exists>n. fst (rainy_days_table_st 0 k1 0 (Some 2020) (Some 2021)) = Returns n
              \<and> k2 ! n = Wide days_table_2020)
       \<and> take (length k1) k2 = k1
       \<and> k2 ! Suc (length k1) = DateIndexed (resample_M count_agg (above 0 two_years)))"
proof -
  have a: "(0::nat) < length (observed_store :: (real option, real) store)"
          "(observed_store :: (real option, real) store) ! 0 = Observed two_years"
    and b: "(0::nat) < length (observed_store :: (real option, nat) store)"
           "(observed_store :: (real option, nat) store) ! 0 = Observed two_years"
    by (simp_all add: observed_store_def)
  note th = aggregation_pure [OF a b, where fsum = exact_sum and sy = "Some 2020" and ey = "Some 2021"
                                      and rf = 0]
  note sums = conjunct1 [OF th, unfolded Let_def sums_two_years sum.case]
  note days = conjunct1 [OF conjunct2 [OF th], unfolded Let_def days_two_years sum.case]
  show ?thesis
    unfolding Let_def
    using a b sums_two_years days_two_years sums days
    by (intro conjI) blast+
qed

text \<open>
  C10, as the code has it. A run that ends without an exception draws one rainy-day
  table: in mode \<^verbatim>\<open>'plt'\<close> the table of the days above 1, in any other mode the table
  of the days above 0. For a loaded series, the two monthly counts differ at the month of
  every day whose value v has 0 < v \<le> 1; and when the runs of both modes end without an
  exception, the two tables differ exactly when such a day lies in a year before the last
  year of the series.
\<close>

theorem rainy_days_by_mode:
  assumes l: "fst (read_csv_data td fs hiyoshi w) = Inr (DatetimeFrame df)"
      and v: "list_all (valid_month \<circ> fst) (rows df)"
  shows "(\<forall>r\<in>set (rows df). \<forall>x. snd r = Some x \<and> 0 < x \<and> x \<le> 1 \<longrightarrow>
            entry (resample_M count_agg (above 1 df)) (year (fst r), month (fst r))
            \<noteq> entry (resample_M count_agg (above 0 df)) (year (fst r), month (fst r)))
       \<and> (\<forall>g w1 w0.
            g \<noteq> ''plt'' \<and> main td fsum fs ''plt'' w = (Inr (), w1) \<and> main td fsum fs g w = (Inr (), w0)
            \<longrightarrow> (\<exists>t1 t0.
                   year_table (resample_M count_agg (above 1 df))
                     (year_min (rows df)) (year_max (rows df)) = Inr t1
                 \<and> year_table (resample_M count_agg (above 0 df))
                     (year_min (rows df)) (year_max (rows df)) = Inr t0
                 \<and> days_displayed w1 = days_displayed w @ [t1]
                 \<and> days_displayed w0 = days_displayed w @ [t0]
                 \<and> (t1 \<noteq> t0 \<longleftrightarrow>
                      (\<exists>r\<in>set (rows df). \<exists>x. snd r = Some x \<and> 0 < x \<and> x \<le> 1
                                              \<and> year (fst r) < last_year (rows df)))))"
proof (intro conjI ballI allI impI)
  fix r x
  assume "r \<in> set (rows df)" "snd r = Some x \<and> 0 < x \<and> x \<le> 1"
  then show "entry (resample_M count_agg (above 1 df)) (year (fst r), month (fst r))
            \<noteq> entry (resample_M count_agg (above 0 df)) (year (fst r), month (fst r))"
    using drizzle_entries [OF v, of r x] by simp
next
  fix g w1 w0
  assume h: "g \<noteq> ''plt'' \<and> main td fsum fs ''plt'' w = (Inr (), w1) \<and> main td fsum fs g w = (Inr (), w0)"
  let ?w = "w\<lparr>display_max_rows := 500, display_precision := 1\<rparr>"
  let ?A1 = "resample_M count_agg (above 1 df)" and ?A0 = "resample_M count_agg (above 0 df)"
  have p1: "plt_charts fsum (DatetimeFrame df) (year_min (rows df)) (year_max (rows df)) ?w = (Inr (), w1)"
    using h main_loaded [OF l, of fsum "''plt''"] by simp
  have p0: "px_charts fsum (DatetimeFrame df) (year_min (rows df)) (year_max (rows df)) ?w = (Inr (), w0)"
    using h main_loaded [OF l, of fsum g] by auto
  have dw: "days_displayed ?w = days_displayed w"
    by (simp add: days_displayed_def)
  obtain t1 where t1: "year_table ?A1 (year_min (rows df)) (year_max (rows df)) = Inr t1"
      "days_displayed w1 = days_displayed w @ [t1]"
    using plt_charts_days [OF p1] dw by auto
  obtain t0 where t0: "year_table ?A0 (year_min (rows df)) (year_max (rows df)) = Inr t0"
      "days_displayed w0 = days_displayed w @ [t0]"
    using px_charts_days [OF p0] dw by auto
  have nonempty: "rows df \<noteq> []"
    using l by (auto simp: read_csv_data_def read_csv_def
                     split: sum.splits option.splits list.splits if_splits
                     elim!: set_columns.elims dest!: those_length)
  let ?ys = "[first_year (rows df) .. last_year (rows df) - 1]"
  have c1: "t_columns t1 = map (year_column ?A1) ?ys"
    and c0: "t_columns t0 = map (year_column ?A0) ?ys"
    using t1(1) t0(1) year_table_cells [OF nonempty] by blast+
  have d: "t1 \<noteq> t0 \<longleftrightarrow> (\<exists>r\<in>set (rows df). \<exists>x. snd r = Some x \<and> 0 < x \<and> x \<le> 1
                                              \<and> year (fst r) < last_year (rows df))"
  proof
    assume ne: "t1 \<noteq> t0"
    show "\<exists>r\<in>set (rows df). \<exists>x. snd r = Some x \<and> 0 < x \<and> x \<le> 1 \<and> year (fst r) < last_year (rows df)"
    proof (rule ccontr)
      assume no: "\<not> (\<exists>r\<in>set (rows df). \<exists>x. snd r = Some x \<and> 0 < x \<and> x \<le> 1
                                              \<and> year (fst r) < last_year (rows df))"
      have "t1 = t0"
      proof (rule year_tables_same [OF v nonempty t1(1) t0(1)])
        fix r assume "r \<in> set (rows df)" "year (fst r) < last_year (rows df)" "is_above 0 r"
        then show "is_above 1 r" using no drizzle_iff [of r] by blast
      qed
      with ne show False by simp
    qed
  next
    assume "\<exists>r\<in>set (rows df). \<exists>x. snd r = Some x \<and> 0 < x \<and> x \<le> 1 \<and> year (fst r) < last_year (rows df)"
    then obtain r x where r: "r \<in> set (rows df)" "snd r = Some x" "0 < x" "x \<le> 1"
        and lt: "year (fst r) < last_year (rows df)" by blast
    have ne: "entry ?A1 (year (fst r), month (fst r)) \<noteq> entry ?A0 (year (fst r), month (fst r))"
      using drizzle_entries [OF v r] by simp
    have "year (fst r) \<in> set (map (year \<circ> fst) (rows df))" using r(1) by auto
    then have fy: "first_year (rows df) \<le> year (fst r)"
      unfolding first_year_def by (intro Min_le) auto
    have y: "year (fst r) \<in> set ?ys" using fy lt by simp
    have vm: "valid_month (fst r)" using v r(1) by (simp add: list_all_iff)
    then have m: "1 \<le> month (fst r)" "month (fst r) \<le> 12" by (simp_all add: valid_month_def)
    have yc: "year_column ?A1 (year (fst r)) \<noteq> year_column ?A0 (year (fst r))"
      using m ne by (rule year_column_differs)
    have "map (year_column ?A1) ?ys \<noteq> map (year_column ?A0) ?ys"
      using y yc by (simp only: map_eq_conv) blast
    then show "t1 \<noteq> t0" using c1 c0 by auto
  qed
  show "\<exists>t1 t0.
                   year_table ?A1 (year_min (rows df)) (year_max (rows df)) = Inr t1
                 \<and> year_table ?A0 (year_min (rows df)) (year_max (rows df)) = Inr t0
                 \<and> days_displayed w1 = days_displayed w @ [t1]
                 \<and> days_displayed w0 = days_displayed w @ [t0]
                 \<and> (t1 \<noteq> t0 \<longleftrightarrow>
                      (\<exists>r\<in>set (rows df). \<exists>x. snd r = Some x \<and> 0 < x \<and> x \<le> 1
                                              \<and> year (fst r) < last_year (rows df)))"
    using t1 t0 d by blast
qed

lemma loaded_drizzle_file:
  "fst (read_csv_data example_dates (one_file hiyoshi drizzle_file) hiyoshi (pandas_defaults :: real world))
   = Inr (DatetimeFrame drizzle_2020)"
  by code_simp

lemma main_plt_drizzle_file:
  "main example_dates exact_sum (one_file hiyoshi drizzle_file) ''plt'' pandas_defaults
   = (Inr (), effect True [Figure (AmountBars amounts_2020_drizzle), Figure (DaysBars days_2020), PltShow]
                pandas_defaults)"
  by code_simp

lemma main_px_drizzle_file:
  "main example_dates exact_sum (one_file hiyoshi drizzle_file) ''px'' pandas_defaults
   = (Inr (), effect False [PxShow (Line (DatetimeFrame drizzle_2020)),
                            PxShow (AmountBars amounts_2020_drizzle),
                            PxShow (DaysBars days_2020_drizzle)]
                pandas_defaults)"
  by code_simp

lemma loaded_last_year_drizzle:
  "fst (read_csv_data example_dates (one_file hiyoshi last_year_drizzle) hiyoshi (pandas_defaults :: real world))
   = Inr (DatetimeFrame drizzle_2021)"
  by code_simp

lemma main_plt_last_year_drizzle:
  "main example_dates exact_sum (one_file hiyoshi last_year_drizzle) ''plt'' pandas_defaults
   = (Inr (), effect True [Figure (AmountBars amounts_2020), Figure (DaysBars days_2020), PltShow]
                pandas_defaults)"
  by code_simp

lemma main_px_last_year_drizzle:
  "main example_dates exact_sum (one_file hiyoshi last_year_drizzle) ''px'' pandas_defaults
   = (Inr (), effect False [PxShow (Line (DatetimeFrame drizzle_2021)),
                            PxShow (AmountBars amounts_2020),
                            PxShow (DaysBars days_2020)]
                pandas_defaults)"
  by code_simp

theorem rainy_days_by_mode_witness:
  "fst (read_csv_data example_dates (one_file hiyoshi drizzle_file) hiyoshi (pandas_defaults :: real world))
     = Inr (DatetimeFrame drizzle_2020)
   \<and> list_all (valid_month \<circ> fst) (rows drizzle_2020)
   \<and> (Date 2020 6 1, Some (1/2)) \<in> set (rows drizzle_2020)
   \<and> (0::real) < 1/2 \<and> (1/2::real) \<le> 1 \<and> (2020::int) < last_year (rows drizzle_2020)
   \<and> entry (resample_M count_agg (above 1 drizzle_2020)) (2020, 6)
       \<noteq> entry (resample_M count_agg (above 0 drizzle_2020)) (2020, 6)
   \<and> ''px'' \<noteq> ''plt''
   \<and> main example_dates exact_sum (one_file hiyoshi drizzle_file) ''plt'' pandas_defaults
     = (Inr (), effect True [Figure (AmountBars amounts_2020_drizzle), Figure (DaysBars days_2020), PltShow]
                  pandas_defaults)
   \<and> main example_dates exact_sum (one_file hiyoshi drizzle_file) ''px'' pandas_defaults
     = (Inr (), effect False [PxShow (Line (DatetimeFrame drizzle_2020)),
                              PxShow (AmountBars amounts_2020_drizzle),
                              PxShow (DaysBars days_2020_drizzle)]
                  pandas_defaults)
   \<and> days_displayed (effect True [Figure (AmountBars amounts_2020_drizzle), Figure (DaysBars days_2020),
                                   PltShow] (pandas_defaults :: real world))
     \<noteq> days_displayed (effect False [PxShow (Line (DatetimeFrame drizzle_2020)),
                                       PxShow (AmountBars amounts_2020_drizzle),
                                       PxShow (DaysBars days_2020_drizzle)] (pandas_defaults :: real world))
   \<and> fst (read_csv_data example_dates (one_file hiyoshi last_year_drizzle) hiyoshi (pandas_defaults :: real world))
     = Inr (DatetimeFrame drizzle_2021)
   \<and> list_all (valid_month \<circ> fst) (rows drizzle_2021)
   \<and> \<not> (\<exists>r\<in>set (rows drizzle_2021). \<exists>x. snd r = Some x \<and> 0 < x \<and> x \<le> 1
                                          \<and> year (fst r) < last_year (rows drizzle_2021))
   \<and> main example_dates exact_sum (one_file hiyoshi last_year_drizzle) ''plt'' pandas_defaults
     = (Inr (), effect True [Figure (AmountBars amounts_2020), Figure (DaysBars days_2020), PltShow]
                  pandas_defaults)
   \<and> main example_dates exact_sum (one_file hiyoshi last_year_drizzle) ''px'' pandas_defaults
     = (Inr (), effect False [PxShow (Line (DatetimeFrame drizzle_2021)),
                              PxShow (AmountBars amounts_2020),
                              PxShow (DaysBars days_2020)]
                  pandas_defaults)
   \<and> days_displayed (effect True [Figure (AmountBars amounts_2020), Figure (DaysBars days_2020),
                                   PltShow] (pandas_defaults :: real world))
     = days_displayed (effect False [PxShow (Line (DatetimeFrame drizzle_2021)),
                                     PxShow (AmountBars amounts_2020),
                                     PxShow (DaysBars days_2020)] (pandas_defaults :: real world))"
proof -
  let ?p = "pandas_defaults :: real world"
  let ?w1 = "effect True [Figure (AmountBars amounts_2020_drizzle), Figure (DaysBars days_2020), PltShow] ?p"
  let ?w0 = "effect False [PxShow (Line (DatetimeFrame drizzle_2020)),
                           PxShow (AmountBars amounts_2020_drizzle),
                           PxShow (DaysBars days_2020_drizzle)] ?p"
  let ?u1 = "effect True [Figure (AmountBars amounts_2020), Figure (DaysBars days_2020), PltShow] ?p"
  let ?u0 = "effect False [PxShow (Line (DatetimeFrame drizzle_2021)), PxShow (AmountBars amounts_2020),
                           PxShow (DaysBars days_2020)] ?p"
  have v: "list_all (valid_month \<circ> fst) (rows drizzle_2020)"
    by (simp add: drizzle_2020_def series_def valid_month_def)
  have r: "(Date 2020 6 1, Some (1/2)) \<in> set (rows drizzle_2020)"
    by (simp add: drizzle_2020_def series_def)
  have x: "(0::real) < 1/2" "(1/2::real) \<le> 1"
    by simp_all
  have l: "(2020::int) < last_year (rows drizzle_2020)"
    by (simp add: last_year_def drizzle_2020_def series_def)
  have g: "''px'' \<noteq> ''plt''"
    by simp
  note th = rainy_days_by_mode [OF loaded_drizzle_file v, where fsum = exact_sum]
  have e: "entry (resample_M count_agg (above 1 drizzle_2020)) (2020, 6)
       \<noteq> entry (resample_M count_agg (above 0 drizzle_2020)) (2020, 6)"
    using conjunct1 [OF th, rule_format, OF r, of "1/2"] by simp
  have ex: "\<exists>r\<in>set (rows drizzle_2020). \<exists>x. snd r = Some x \<and> 0 < x \<and> x \<le> 1
                                          \<and> year (fst r) < last_year (rows drizzle_2020)"
    using r l by (intro bexI [of _ "(Date 2020 6 1, Some (1/2))"] exI [of _ "1/2"]) simp_all
  have "\<exists>t1 t0. days_displayed ?w1 = days_displayed ?p @ [t1]
              \<and> days_displayed ?w0 = days_displayed ?p @ [t0]
              \<and> t1 \<noteq> t0"
    using conjunct2 [OF th, rule_format, of "''px''" ?w1 ?w0]
          g main_plt_drizzle_file main_px_drizzle_file ex
    by blast
  then have d: "days_displayed ?w1 \<noteq> days_displayed ?w0"
    by auto
  have v': "list_all (valid_month \<circ> fst) (rows drizzle_2021)"
    by (simp add: drizzle_2021_def series_def valid_month_def)
  have no: "\<not> (\<exists>r\<in>set (rows drizzle_2021). \<exists>x. snd r = Some x \<and> 0 < x \<and> x \<le> 1
                                          \<and> year (fst r) < last_year (rows drizzle_2021))"
    by (simp add: drizzle_2021_def series_def last_year_def)
  note th' = rainy_days_by_mode [OF loaded_last_year_drizzle v', where fsum = exact_sum]
  have "\<exists>t1 t0. days_displayed ?u1 = days_displayed ?p @ [t1]
              \<and> days_displayed ?u0 = days_displayed ?p @ [t0]
              \<and> t1 = t0"
    using conjunct2 [OF th', rule_format, of "''px''" ?u1 ?u0]
          g main_plt_last_year_drizzle main_px_last_year_drizzle no
    by blast
  then have d': "days_displayed ?u1 = days_displayed ?u0"
    by auto
  show ?thesis
    using loaded_drizzle_file v r x l e g main_plt_drizzle_file main_px_drizzle_file d
          loaded_last_year_drizzle v' no main_plt_last_year_drizzle main_px_last_year_drizzle d'
    by (intro conjI)
qed

text \<open>
  C10 as the specification states it fails in its last part. A series whose only day
  with 0 < v \<le> 1 lies in its last year is displayed with the same rainy-day counts in both
  modes, because the last year has no column.
\<close>

theorem same_counts_displayed_counterexample:
  "(''2021-06-01'', Some (1/2)) \<in> set last_year_drizzle
   \<and> events (snd (main example_dates exact_sum (one_file hiyoshi last_year_drizzle) ''plt'' pandas_defaults))
     = [Figure (AmountBars amounts_2020), Figure (DaysBars days_2020), PltShow]
   \<and> events (snd (main example_dates exact_sum (one_file hiyoshi last_year_drizzle) ''px'' pandas_defaults))
     = [PxShow (Line (DatetimeFrame drizzle_2021)),
        PxShow (AmountBars amounts_2020), PxShow (DaysBars days_2020)]
   \<and> days_displayed (snd (main example_dates exact_sum (one_file hiyoshi last_year_drizzle) ''plt''
                             pandas_defaults))
     = days_displayed (snd (main example_dates exact_sum (one_file hiyoshi last_year_drizzle) ''px''
                               pandas_defaults))"
  by code_simp

end
